theory Spec2Isabelle
  imports Main "HOL-Library.Word" "HOL-Library.Signed_Division" "HOL-Library.Multiset"
begin

section \<open>The CloudWatch Logs data source (datasource.go)\<close>

text \<open>
  A shallow embedding of \<^verbatim>\<open>datasource.go\<close>: the client registry \<^verbatim>\<open>GetClient\<close>, the
  dispatcher \<^verbatim>\<open>Query\<close>, the bulk path \<^verbatim>\<open>handleQuery\<close>, the two shaping functions
  \<^verbatim>\<open>parseTableResponse\<close> and \<^verbatim>\<open>transformToTable\<close>, and \<^verbatim>\<open>metricFindQuery\<close>.

  A Go function returning \<^verbatim>\<open>(T, error)\<close> becomes a function into \<open>failure + T\<close>:
  \<open>Inl (Err m)\<close> is a non-nil \<^verbatim>\<open>error\<close> whose \<^verbatim>\<open>Error()\<close> text is \<open>m\<close> (the program
  reads nothing else of an error value), \<open>Inl (Panic p)\<close> is a run-time panic, which no
  function of the file recovers from, and \<open>Inr v\<close> is a normal return with a nil error.
  The process-wide variable \<^verbatim>\<open>clientCache\<close> is threaded through as the record \<open>world\<close>.
\<close>

subsection \<open>Values of the language and of the libraries\<close>

type_synonym int64 = "64 word"

datatype panic = IndexOutOfRange | NilPointerDereference

datatype failure = Err string | Panic panic

text \<open>
  Go's \<^verbatim>\<open>/\<close> and \<^verbatim>\<open>%\<close> on \<^verbatim>\<open>int64\<close> truncate towards zero; the two's-complement
  result is cut to 64 bits.
\<close>

definition quo64 :: "int64 \<Rightarrow> int64 \<Rightarrow> int64" where
  "quo64 a b = word_of_int (sint a sdiv sint b)"

definition rem64 :: "int64 \<Rightarrow> int64 \<Rightarrow> int64" where
  "rem64 a b = word_of_int (sint a smod sint b)"

text \<open>
  A decoded JSON document as \<^verbatim>\<open>simplejson\<close> holds it, with the two accessors the program
  calls: \<^verbatim>\<open>Get\<close> yields the member of an object, or a document holding nil when the
  receiver is no object or has no such key; \<^verbatim>\<open>MustString\<close> yields the string held, or
  the empty string when the document holds no string.
\<close>

datatype json =
    JNull
  | JBool bool
  | JNumber string
  | JString string
  | JArray "json list"
  | JObject "(string \<times> json) list"

fun Get :: "json \<Rightarrow> string \<Rightarrow> json" where
  "Get (JObject m) key = (case map_of m key of Some val \<Rightarrow> val | None \<Rightarrow> JNull)"
| "Get _ key = JNull"

fun MustString :: "json \<Rightarrow> string" where
  "MustString (JString s) = s"
| "MustString _ = []"

subsection \<open>Messages of the plugin protocol\<close>

record TimeRange =
  FromRaw :: string
  ToRaw :: string

record Query_msg =
  ModelJson :: string

text \<open>
  \<^verbatim>\<open>DatasourceRequest.TimeRange\<close> is a pointer to a message, nil when the host sent none;
  reading a field through it then panics.
\<close>

record DatasourceRequest =
  TimeRange :: "TimeRange option"
  Queries :: "Query_msg list"

datatype RowValue_Kind =
    RowValue_TYPE_NULL
  | RowValue_TYPE_INT64
  | RowValue_TYPE_BOOL
  | RowValue_TYPE_STRING
  | RowValue_TYPE_DOUBLE
  | RowValue_TYPE_BYTES

record RowValue =
  Kind :: RowValue_Kind
  StringValue :: string

record TableColumn =
  Name :: string

record TableRow =
  Values :: "RowValue list"

record Table =
  Columns :: "TableColumn list"
  Rows :: "TableRow list"

record QueryResult =
  Error :: string
  RefId_res :: string
  MetaJson :: string
  Tables :: "Table list"

record DatasourceResponse =
  Results :: "QueryResult list"

text \<open>The zero value \<^verbatim>\<open>datasource.QueryResult{}\<close>, whose fields the literals then set.\<close>

definition QueryResult0 :: QueryResult where
  "QueryResult0 = \<lparr>Error = [], RefId_res = [], MetaJson = [], Tables = []\<rparr>"

subsection \<open>Messages of the log service\<close>

text \<open>
  The SDK's structures hold every scalar behind a pointer; \<open>None\<close> is the nil pointer of a
  field the service left out.
\<close>

record FilterLogEventsInput =
  LogGroupName_in :: "string option"
  LogStreamNames :: "string list"
  FilterPattern :: "string option"
  Interleaved :: "bool option"
  Limit :: "int64 option"
  NextToken :: "string option"
  StartTime :: "int64 option"
  EndTime :: "int64 option"

record FilteredLogEvent =
  EventId :: "string option"
  IngestionTime :: "int64 option"
  LogStreamName :: "string option"
  Message :: "string option"
  Timestamp :: "int64 option"

record FilterLogEventsOutput =
  Events :: "FilteredLogEvent list"

record LogGroup =
  CreationTime :: "int64 option"
  LogGroupName :: "string option"

record LogStream =
  CreationTime_s :: "int64 option"
  LogStreamName_s :: "string option"

record DescribeLogGroupsInput =
  LogGroupNamePrefix :: "string option"

record DescribeLogStreamsInput =
  LogGroupName_ds :: "string option"

record DescribeLogGroupsOutput =
  LogGroups :: "LogGroup list"

record DescribeLogStreamsOutput =
  LogStreams :: "LogStream list"

record Target =
  RefId :: string
  QueryType :: string
  Format :: string
  Region :: string
  Input :: FilterLogEventsInput

record suggestData =
  Text :: string
  Value :: string

subsection \<open>The world outside the file\<close>

text \<open>
  A session is built for a region; a client is the object \<^verbatim>\<open>cloudwatchlogs.New\<close>
  allocates, told apart from every other client by the number of its allocation.
\<close>

datatype session = Session string

datatype client = Client (client_id: nat) (client_session: session)

text \<open>
  What the libraries and the log service answer is a parameter of the model:
  \<^item> \<open>NewJson\<close>, \<open>Unmarshal\<close>, \<open>ParseInt\<close>, \<open>Marshal\<close>, \<open>NewSession\<close>: the result of
    \<^verbatim>\<open>simplejson.NewJson\<close>, of \<^verbatim>\<open>json.Unmarshal\<close> into a \<^verbatim>\<open>Target\<close>, of
    \<^verbatim>\<open>strconv.ParseInt(s, 10, 64)\<close>, of \<^verbatim>\<open>json.Marshal\<close> and of \<^verbatim>\<open>session.NewSession\<close>:
    \<open>Inl m\<close> is an error with text \<open>m\<close>;
  \<^item> \<open>FilterLogEvents\<close>, \<open>DescribeLogGroups\<close>, \<open>DescribeLogStreams\<close>: the pages the service
    delivers for a request, in order, and the error that ends the listing, if any;
  \<^item> \<open>Local\<close>: the offset of the process's local time zone, in seconds east of UTC, at
    an instant given in Unix seconds;
  \<^item> \<open>Slice_groups\<close>, \<open>Slice_streams\<close>: what \<^verbatim>\<open>sort.Slice\<close> makes of a slice under a
    \<^verbatim>\<open>less\<close> function.
\<close>

record env =
  NewJson :: "string \<Rightarrow> string + json"
  Unmarshal :: "string \<Rightarrow> string + Target"
  ParseInt :: "string \<Rightarrow> string + int64"
  Marshal :: "FilterLogEventsOutput \<Rightarrow> string + string"
  NewSession :: "string \<Rightarrow> string + session"
  FilterLogEvents :: "client \<Rightarrow> FilterLogEventsInput \<Rightarrow> FilterLogEventsOutput list \<times> string option"
  DescribeLogGroups :: "client \<Rightarrow> DescribeLogGroupsInput \<Rightarrow> DescribeLogGroupsOutput list \<times> string option"
  DescribeLogStreams :: "client \<Rightarrow> DescribeLogStreamsInput \<Rightarrow> DescribeLogStreamsOutput list \<times> string option"
  Local :: "int \<Rightarrow> int"
  Slice_groups :: "(LogGroup \<Rightarrow> LogGroup \<Rightarrow> bool) \<Rightarrow> LogGroup list \<Rightarrow> LogGroup list"
  Slice_streams :: "(LogStream \<Rightarrow> LogStream \<Rightarrow> bool) \<Rightarrow> LogStream list \<Rightarrow> LogStream list"

text \<open>
  The mutable state: the map \<^verbatim>\<open>clientCache\<close>, and the regions for which a session was
  requested from \<^verbatim>\<open>session.NewSession\<close>, latest first, which records that side effect.
\<close>

record world =
  clientCache :: "string \<rightharpoonup> client"
  NewSession_calls :: "string list"

definition world0 :: world where
  "world0 = \<lparr>clientCache = Map.empty, NewSession_calls = []\<rparr>"

subsection \<open>Paged operations of the SDK\<close>

text \<open>
  \<^verbatim>\<open>XxxPages(input, fn)\<close> requests one page after the other and hands each to \<^verbatim>\<open>fn\<close>
  together with \<^verbatim>\<open>lastPage\<close>, which is true when the page carries no continuation
  token; it stops when \<^verbatim>\<open>fn\<close> returns false, when no page is left, or when a request
  fails, and returns the error of the failed request. The callback is a function from
  the page, the flag and the accumulated value to the new accumulated value and the
  callback's result. A page followed by a further page or by a failing request carries a
  token, so \<^verbatim>\<open>lastPage\<close> holds exactly on a final page that no error follows.
\<close>

fun paginate :: "('p \<Rightarrow> bool \<Rightarrow> 'a \<Rightarrow> 'a \<times> bool) \<Rightarrow> 'p list \<Rightarrow> string option \<Rightarrow> 'a \<Rightarrow> 'a \<times> string option" where
  "paginate fn [] err acc = (acc, err)"
| "paginate fn (page # rest) err acc =
     (case fn page (rest = [] \<and> err = None) acc of
        (acc', continue) \<Rightarrow> if continue then paginate fn rest err acc' else (acc', None))"

definition FilterLogEventsPages ::
  "env \<Rightarrow> client \<Rightarrow> FilterLogEventsInput \<Rightarrow>
   (FilterLogEventsOutput \<Rightarrow> bool \<Rightarrow> 'a \<Rightarrow> 'a \<times> bool) \<Rightarrow> 'a \<Rightarrow> 'a \<times> string option" where
  "FilterLogEventsPages e svc input fn acc =
     (case FilterLogEvents e svc input of (pages, err) \<Rightarrow> paginate fn pages err acc)"

definition DescribeLogGroupsPages ::
  "env \<Rightarrow> client \<Rightarrow> DescribeLogGroupsInput \<Rightarrow>
   (DescribeLogGroupsOutput \<Rightarrow> bool \<Rightarrow> 'a \<Rightarrow> 'a \<times> bool) \<Rightarrow> 'a \<Rightarrow> 'a \<times> string option" where
  "DescribeLogGroupsPages e svc input fn acc =
     (case DescribeLogGroups e svc input of (pages, err) \<Rightarrow> paginate fn pages err acc)"

definition DescribeLogStreamsPagesWithContext ::
  "env \<Rightarrow> client \<Rightarrow> DescribeLogStreamsInput \<Rightarrow>
   (DescribeLogStreamsOutput \<Rightarrow> bool \<Rightarrow> 'a \<Rightarrow> 'a \<times> bool) \<Rightarrow> 'a \<Rightarrow> 'a \<times> string option" where
  "DescribeLogStreamsPagesWithContext e svc input fn acc =
     (case DescribeLogStreams e svc input of (pages, err) \<Rightarrow> paginate fn pages err acc)"

subsection \<open>Time values and their RFC 3339 form\<close>

text \<open>
  \<^verbatim>\<open>time.Unix(sec, nsec)\<close> brings \<^verbatim>\<open>nsec\<close> into the range from 0 to 999999999,
  carrying into \<^verbatim>\<open>sec\<close>; the result is the pair of both.
\<close>

definition time_Unix :: "int64 \<Rightarrow> int64 \<Rightarrow> int64 \<times> int64" where
  "time_Unix sec nsec =
     (if nsec <s 0 \<or> 1000000000 <=s nsec then
        (let n = quo64 nsec 1000000000;
             sec1 = sec + n;
             nsec1 = nsec - n * 1000000000
         in if nsec1 <s 0 then (sec1 - 1, nsec1 + 1000000000) else (sec1, nsec1))
      else (sec, nsec))"

text \<open>\<^verbatim>\<open>appendInt\<close>: the decimal digits of \<open>x\<close>, zero-padded to \<open>width\<close> digits, after a minus sign if \<open>x\<close> is negative.\<close>

definition digit :: "nat \<Rightarrow> char" where
  "digit n = ''0123456789'' ! (n mod 10)"

fun decimal :: "nat \<Rightarrow> string" where
  "decimal u = (if u < 10 then [digit u] else decimal (u div 10) @ [digit u])"

declare decimal.simps [simp del]

definition appendInt :: "int \<Rightarrow> nat \<Rightarrow> string" where
  "appendInt x width =
     (let buf = decimal (nat \<bar>x\<bar>)
      in (if x < 0 then ''-'' else []) @ replicate (width - length buf) CHR ''0'' @ buf)"

definition isLeap :: "int \<Rightarrow> bool" where
  "isLeap year = (year mod 4 = 0 \<and> (year mod 100 \<noteq> 0 \<or> year mod 400 = 0))"

definition daysBefore :: "int list" where
  "daysBefore = [0, 31, 59, 90, 120, 151, 181, 212, 243, 273, 304, 334, 365]"

text \<open>
  The year and the day within it, for a count of days from 1 January of year 1 in the
  proleptic Gregorian calendar: 400-year, 100-year, 4-year and 1-year cycles are cut off
  in turn, as \<^verbatim>\<open>absDate\<close> does from its own origin, a year that is 1 modulo 400.
\<close>

definition absDate :: "int \<Rightarrow> int \<times> int" where
  "absDate days =
     (let n400 = days div 146097;
          d400 = days - 146097 * n400;
          q100 = d400 div 36524;
          n100 = q100 - q100 div 4;
          d100 = d400 - 36524 * n100;
          n4 = d100 div 1461;
          d4 = d100 - 1461 * n4;
          q1 = d4 div 365;
          n1 = q1 - q1 div 4;
          yday = d4 - 365 * n1
      in (400 * n400 + 100 * n100 + 4 * n4 + n1 + 1, yday))"

text \<open>The month (1 to 12) and the day of the month for a year and a day within it.\<close>

definition monthDay :: "int \<Rightarrow> int \<Rightarrow> int \<times> int" where
  "monthDay year yday =
     (if isLeap year \<and> yday = 31 + 29 - 1 then (2, 29)
      else
        (let day = (if isLeap year \<and> yday > 31 + 29 - 1 then yday - 1 else yday);
             month = day div 31;
             end' = daysBefore ! nat (month + 1)
         in if day \<ge> end' then (month + 2, day - end' + 1)
            else (month + 1, day - daysBefore ! nat month + 1)))"

text \<open>
  \<^verbatim>\<open>t.Format(time.RFC3339)\<close>, the layout \<^verbatim>\<open>2006-01-02T15:04:05Z07:00\<close>, for a time in the
  local zone: the wall clock is the instant moved by the zone's offset; the zone is
  written \<^verbatim>\<open>Z\<close> when the offset is zero and as signed hours and minutes otherwise. The
  nanoseconds are not part of the layout.
\<close>

definition zone_RFC3339 :: "int \<Rightarrow> string" where
  "zone_RFC3339 offset =
     (if offset = 0 then ''Z''
      else
        (let zone = offset sdiv 60
         in (if zone < 0 then ''-'' else ''+'')
            @ appendInt (\<bar>zone\<bar> div 60) 2 @ '':'' @ appendInt (\<bar>zone\<bar> mod 60) 2))"

definition Format_RFC3339 :: "(int \<Rightarrow> int) \<Rightarrow> int64 \<times> int64 \<Rightarrow> string" where
  "Format_RFC3339 lookup t =
     (let unix = sint (fst t);
          offset = lookup unix;
          abs = unix + offset;
          (year, yday) = absDate (abs div 86400 + 719162);
          (month, day) = monthDay year yday;
          secs = abs mod 86400
      in appendInt year 4 @ ''-'' @ appendInt month 2 @ ''-'' @ appendInt day 2 @ ''T''
         @ appendInt (secs div 3600) 2 @ '':'' @ appendInt (secs mod 3600 div 60) 2 @ '':''
         @ appendInt (secs mod 60) 2 @ zone_RFC3339 offset)"

subsection \<open>GetClient\<close>

definition GetClient :: "env \<Rightarrow> world \<Rightarrow> string \<Rightarrow> world \<times> (failure + client)" where
  "GetClient e w region =
     (case clientCache w region of
        Some client \<Rightarrow> (w, Inr client)
      | None \<Rightarrow>
          (let w1 = w\<lparr>NewSession_calls := region # NewSession_calls w\<rparr>
           in case NewSession e region of
                Inl err \<Rightarrow> (w1, Inl (Err err))
              | Inr sess \<Rightarrow>
                  (let new = Client (length (NewSession_calls w)) sess;
                       w2 = w1\<lparr>clientCache := (clientCache w1)(region \<mapsto> new)\<rparr>
                   in (w2, Inr new))))"

subsection \<open>parseTableResponse and transformToTable\<close>

definition stringValue :: "string \<Rightarrow> RowValue" where
  "stringValue s = \<lparr>Kind = RowValue_TYPE_STRING, StringValue = s\<rparr>"

text \<open>
  The expression \<^verbatim>\<open>time.Unix(ms/1000, ms%1000*1000*1000).Format(time.RFC3339)\<close>, which
  the loop over \<^verbatim>\<open>resp.Events\<close> applies to the timestamp and to the ingestion time.
\<close>

definition formatMillis :: "env \<Rightarrow> int64 \<Rightarrow> string" where
  "formatMillis e ms = Format_RFC3339 (Local e) (time_Unix (quo64 ms 1000) (rem64 ms 1000 * 1000 * 1000))"

text \<open>The body of that loop: the row of one event, or the panic of the first nil field it reads.\<close>

definition eventRow :: "env \<Rightarrow> FilteredLogEvent \<Rightarrow> failure + TableRow" where
  "eventRow e ev =
     (case Timestamp ev of
        None \<Rightarrow> Inl (Panic NilPointerDereference)
      | Some ts \<Rightarrow>
     (case IngestionTime ev of
        None \<Rightarrow> Inl (Panic NilPointerDereference)
      | Some it \<Rightarrow>
     (case LogStreamName ev of
        None \<Rightarrow> Inl (Panic NilPointerDereference)
      | Some stream \<Rightarrow>
     (case Message ev of
        None \<Rightarrow> Inl (Panic NilPointerDereference)
      | Some msg \<Rightarrow>
          Inr \<lparr>Values = [stringValue (formatMillis e ts), stringValue (formatMillis e it),
                          stringValue stream, stringValue msg]\<rparr>))))"

fun eventRows :: "env \<Rightarrow> FilteredLogEvent list \<Rightarrow> TableRow list \<Rightarrow> failure + TableRow list" where
  "eventRows e [] rows = Inr rows"
| "eventRows e (ev # evs) rows =
     (case eventRow e ev of
        Inl f \<Rightarrow> Inl f
      | Inr row \<Rightarrow> eventRows e evs (rows @ [row]))"

definition parseTableResponse :: "env \<Rightarrow> FilterLogEventsOutput \<Rightarrow> string \<Rightarrow> failure + QueryResult" where
  "parseTableResponse e resp refId =
     (let columns = [\<lparr>Name = ''Timestamp''\<rparr>, \<lparr>Name = ''IngestionTime''\<rparr>,
                     \<lparr>Name = ''LogStreamName''\<rparr>, \<lparr>Name = ''Message''\<rparr>]
      in case eventRows e (Events resp) [] of
           Inl f \<Rightarrow> Inl f
         | Inr rows \<Rightarrow>
             Inr (QueryResult0\<lparr>RefId_res := refId, Tables := [\<lparr>Columns = columns, Rows = rows\<rparr>]\<rparr>))"

definition suggestRow :: "suggestData \<Rightarrow> TableRow" where
  "suggestRow r = \<lparr>Values = [stringValue (Text r), stringValue (Value r)]\<rparr>"

definition transformToTable :: "suggestData list \<Rightarrow> Table" where
  "transformToTable data =
     \<lparr>Columns = [\<lparr>Name = ''text''\<rparr>, \<lparr>Name = ''value''\<rparr>],
      Rows = foldl (\<lambda>rows r. rows @ [suggestRow r]) [] data\<rparr>"

subsection \<open>metricFindQuery\<close>

text \<open>The callbacks handed to the paged operations: append the page, go on unless it is the last.\<close>

definition groupsPage :: "DescribeLogGroupsOutput \<Rightarrow> bool \<Rightarrow> DescribeLogGroupsOutput \<Rightarrow> DescribeLogGroupsOutput \<times> bool" where
  "groupsPage page lastPage groups = (groups\<lparr>LogGroups := LogGroups groups @ LogGroups page\<rparr>, \<not> lastPage)"

definition streamsPage :: "DescribeLogStreamsOutput \<Rightarrow> bool \<Rightarrow> DescribeLogStreamsOutput \<Rightarrow> DescribeLogStreamsOutput \<times> bool" where
  "streamsPage page lastPage streams = (streams\<lparr>LogStreams := LogStreams streams @ LogStreams page\<rparr>, \<not> lastPage)"

text \<open>
  The \<^verbatim>\<open>less\<close> functions handed to \<^verbatim>\<open>sort.Slice\<close>: the element at \<open>i\<close> goes before the
  one at \<open>j\<close> when its creation time is the greater. Both dereference the creation time
  of the two elements. A sort calls \<^verbatim>\<open>less\<close> on no element of a slice shorter than two
  and on every element of a longer one, so the dereference panics exactly when the slice
  has two or more elements and one of them has no creation time; the functions below
  guard the sort by that test.
\<close>

definition lessGroups :: "LogGroup \<Rightarrow> LogGroup \<Rightarrow> bool" where
  "lessGroups gi gj =
     (case (CreationTime gi, CreationTime gj) of
        (Some ti, Some tj) \<Rightarrow> tj <s ti
      | _ \<Rightarrow> False)"

definition lessStreams :: "LogStream \<Rightarrow> LogStream \<Rightarrow> bool" where
  "lessStreams si sj =
     (case (CreationTime_s si, CreationTime_s sj) of
        (Some ti, Some tj) \<Rightarrow> tj <s ti
      | _ \<Rightarrow> False)"

fun groupSuggestions :: "LogGroup list \<Rightarrow> suggestData list \<Rightarrow> failure + suggestData list" where
  "groupSuggestions [] data = Inr data"
| "groupSuggestions (g # gs) data =
     (case LogGroupName g of
        None \<Rightarrow> Inl (Panic NilPointerDereference)
      | Some name \<Rightarrow> groupSuggestions gs (data @ [\<lparr>Text = name, Value = name\<rparr>]))"

fun streamSuggestions :: "LogStream list \<Rightarrow> suggestData list \<Rightarrow> failure + suggestData list" where
  "streamSuggestions [] data = Inr data"
| "streamSuggestions (g # gs) data =
     (case LogStreamName_s g of
        None \<Rightarrow> Inl (Panic NilPointerDereference)
      | Some name \<Rightarrow> streamSuggestions gs (data @ [\<lparr>Text = name, Value = name\<rparr>]))"

text \<open>The two cases of the switch on \<^verbatim>\<open>subtype\<close>.\<close>

definition log_group_names :: "env \<Rightarrow> client \<Rightarrow> json \<Rightarrow> failure + suggestData list" where
  "log_group_names e svc parameters =
     (let prefix = MustString (Get parameters ''prefix'')
      in case DescribeLogGroupsPages e svc \<lparr>LogGroupNamePrefix = Some prefix\<rparr> groupsPage \<lparr>LogGroups = []\<rparr> of
           (groups, Some err) \<Rightarrow> Inl (Err err)
         | (groups, None) \<Rightarrow>
             if 2 \<le> length (LogGroups groups) \<and> list_ex (\<lambda>g. CreationTime g = None) (LogGroups groups)
             then Inl (Panic NilPointerDereference)
             else groupSuggestions (Slice_groups e lessGroups (LogGroups groups)) [])"

definition log_stream_names :: "env \<Rightarrow> client \<Rightarrow> json \<Rightarrow> failure + suggestData list" where
  "log_stream_names e svc parameters =
     (let logGroupName = MustString (Get parameters ''logGroupName'')
      in case DescribeLogStreamsPagesWithContext e svc \<lparr>LogGroupName_ds = Some logGroupName\<rparr> streamsPage \<lparr>LogStreams = []\<rparr> of
           (streams, Some err) \<Rightarrow> Inl (Err err)
         | (streams, None) \<Rightarrow>
             if 2 \<le> length (LogStreams streams) \<and> list_ex (\<lambda>g. CreationTime_s g = None) (LogStreams streams)
             then Inl (Panic NilPointerDereference)
             else streamSuggestions (Slice_streams e lessStreams (LogStreams streams)) [])"

definition metricFindQuery :: "env \<Rightarrow> world \<Rightarrow> json \<Rightarrow> world \<times> (failure + DatasourceResponse)" where
  "metricFindQuery e w parameters =
     (let region = MustString (Get parameters ''region'')
      in case GetClient e w region of
           (w1, Inl f) \<Rightarrow> (w1, Inl f)
         | (w1, Inr svc) \<Rightarrow>
             (let subtype = MustString (Get parameters ''subtype'');
                  data = (if subtype = ''log_group_names'' then log_group_names e svc parameters
                          else if subtype = ''log_stream_names'' then log_stream_names e svc parameters
                          else Inr [])
              in case data of
                   Inl f \<Rightarrow> (w1, Inl f)
                 | Inr data \<Rightarrow>
                     (w1, Inr \<lparr>Results = [QueryResult0\<lparr>RefId_res := ''metricFindQuery'',
                                                          Tables := [transformToTable data]\<rparr>]\<rparr>)))"

subsection \<open>handleQuery\<close>

definition eventsPage :: "FilterLogEventsOutput \<Rightarrow> bool \<Rightarrow> FilterLogEventsOutput \<Rightarrow> FilterLogEventsOutput \<times> bool" where
  "eventsPage page lastPage resp = (resp\<lparr>Events := Events resp @ Events page\<rparr>, \<not> lastPage)"

text \<open>What both loops over the targets do to a decoded target: the request's time range replaces the filter's.\<close>

definition withTimes :: "int64 \<Rightarrow> int64 \<Rightarrow> Target \<Rightarrow> Target" where
  "withTimes fromRaw toRaw target =
     target\<lparr>Input := (Input target)\<lparr>StartTime := Some fromRaw, EndTime := Some toRaw\<rparr>\<rparr>"

text \<open>The first loop of \<^verbatim>\<open>handleQuery\<close>: decode every query, in order.\<close>

fun decodeTargets :: "env \<Rightarrow> int64 \<Rightarrow> int64 \<Rightarrow> Query_msg list \<Rightarrow> Target list \<Rightarrow> failure + Target list" where
  "decodeTargets e fromRaw toRaw [] targets = Inr targets"
| "decodeTargets e fromRaw toRaw (query # queries) targets =
     (case Unmarshal e (ModelJson query) of
        Inl err \<Rightarrow> Inl (Err err)
      | Inr target \<Rightarrow> decodeTargets e fromRaw toRaw queries (targets @ [withTimes fromRaw toRaw target]))"

text \<open>The second loop: fetch every target's pages, then look at its format.\<close>

fun fetchTargets :: "env \<Rightarrow> world \<Rightarrow> Target list \<Rightarrow> DatasourceResponse \<Rightarrow> world \<times> (failure + DatasourceResponse)" where
  "fetchTargets e w [] response = (w, Inr response)"
| "fetchTargets e w (target # targets) response =
     (case GetClient e w (Region target) of
        (w1, Inl f) \<Rightarrow> (w1, Inl f)
      | (w1, Inr svc) \<Rightarrow>
          (case FilterLogEventsPages e svc (Input target) eventsPage \<lparr>Events = []\<rparr> of
             (resp, Some err) \<Rightarrow> (w1, Inl (Err err))
           | (resp, None) \<Rightarrow>
               if Format target = ''timeserie'' then (w1, Inl (Err ''not supported''))
               else if Format target = ''table'' then
                 (case parseTableResponse e resp (RefId target) of
                    Inl f \<Rightarrow> (w1, Inl f)
                  | Inr r \<Rightarrow> fetchTargets e w1 targets (response\<lparr>Results := Results response @ [r]\<rparr>))
               else fetchTargets e w1 targets response))"

definition handleQuery :: "env \<Rightarrow> world \<Rightarrow> DatasourceRequest \<Rightarrow> world \<times> (failure + DatasourceResponse)" where
  "handleQuery e w tsdbReq =
     (case TimeRange tsdbReq of
        None \<Rightarrow> (w, Inl (Panic NilPointerDereference))
      | Some timeRange \<Rightarrow>
     (case ParseInt e (FromRaw timeRange) of
        Inl err \<Rightarrow> (w, Inl (Err err))
      | Inr fromRaw \<Rightarrow>
     (case ParseInt e (ToRaw timeRange) of
        Inl err \<Rightarrow> (w, Inl (Err err))
      | Inr toRaw \<Rightarrow>
     (case decodeTargets e fromRaw toRaw (Queries tsdbReq) [] of
        Inl f \<Rightarrow> (w, Inl f)
      | Inr targets \<Rightarrow> fetchTargets e w targets \<lparr>Results = []\<rparr>))))"

subsection \<open>Query\<close>

text \<open>The branch of \<^verbatim>\<open>Query\<close> for \<^verbatim>\<open>annotationQuery\<close>, on the first query of the request.\<close>

definition annotationQuery :: "env \<Rightarrow> world \<Rightarrow> DatasourceRequest \<Rightarrow> Query_msg \<Rightarrow> world \<times> (failure + DatasourceResponse)" where
  "annotationQuery e w tsdbReq query0 =
     (case Unmarshal e (ModelJson query0) of
        Inl err \<Rightarrow> (w, Inl (Err err))
      | Inr target0 \<Rightarrow>
     (case TimeRange tsdbReq of
        None \<Rightarrow> (w, Inl (Panic NilPointerDereference))
      | Some timeRange \<Rightarrow>
     (case ParseInt e (FromRaw timeRange) of
        Inl err \<Rightarrow> (w, Inl (Err err))
      | Inr fromRaw \<Rightarrow>
     (case ParseInt e (ToRaw timeRange) of
        Inl err \<Rightarrow> (w, Inl (Err err))
      | Inr toRaw \<Rightarrow>
          (let target = withTimes fromRaw toRaw target0
           in case GetClient e w (Region target) of
                (w1, Inl f) \<Rightarrow> (w1, Inl f)
              | (w1, Inr svc) \<Rightarrow>
                  (case FilterLogEventsPages e svc (Input target) eventsPage \<lparr>Events = []\<rparr> of
                     (resp, Some err) \<Rightarrow> (w1, Inl (Err err))
                   | (resp, None) \<Rightarrow>
                       (case Marshal e resp of
                          Inl err \<Rightarrow> (w1, Inl (Err err))
                        | Inr resultJson \<Rightarrow>
                            (w1, Inr \<lparr>Results = [QueryResult0\<lparr>MetaJson := resultJson\<rparr>]\<rparr>))))))))"

text \<open>
  \<^verbatim>\<open>Query\<close>. An error that \<^verbatim>\<open>metricFindQuery\<close> or \<^verbatim>\<open>handleQuery\<close> returns is wrapped
  into a response; a panic is not an error value and passes through.
\<close>

definition Query :: "env \<Rightarrow> world \<Rightarrow> DatasourceRequest \<Rightarrow> world \<times> (failure + DatasourceResponse)" where
  "Query e w tsdbReq =
     (case Queries tsdbReq of
        [] \<Rightarrow> (w, Inl (Panic IndexOutOfRange))
      | query0 # _ \<Rightarrow>
     (case NewJson e (ModelJson query0) of
        Inl err \<Rightarrow> (w, Inl (Err err))
      | Inr modelJson \<Rightarrow>
          if MustString (Get modelJson ''queryType'') = ''metricFindQuery'' then
            (case metricFindQuery e w modelJson of
               (w1, Inl (Err err)) \<Rightarrow>
                 (w1, Inr \<lparr>Results = [QueryResult0\<lparr>RefId_res := ''metricFindQuery'', Error := err\<rparr>]\<rparr>)
             | (w1, Inl (Panic p)) \<Rightarrow> (w1, Inl (Panic p))
             | (w1, Inr response) \<Rightarrow> (w1, Inr response))
          else if MustString (Get modelJson ''queryType'') = ''annotationQuery'' then
            annotationQuery e w tsdbReq query0
          else
            (case handleQuery e w tsdbReq of
               (w1, Inl (Err err)) \<Rightarrow> (w1, Inr \<lparr>Results = [QueryResult0\<lparr>Error := err\<rparr>]\<rparr>)
             | (w1, Inl (Panic p)) \<Rightarrow> (w1, Inl (Panic p))
             | (w1, Inr response) \<Rightarrow> (w1, Inr response))))"

section \<open>Vocabulary of the properties\<close>

text \<open>A log record is complete when the four fields the table reads are present.\<close>

definition completeEvent :: "FilteredLogEvent \<Rightarrow> bool" where
  "completeEvent ev =
     (Timestamp ev \<noteq> None \<and> IngestionTime ev \<noteq> None \<and> LogStreamName ev \<noteq> None \<and> Message ev \<noteq> None)"

text \<open>The row of a complete record.\<close>

definition rowOf :: "env \<Rightarrow> FilteredLogEvent \<Rightarrow> TableRow" where
  "rowOf e ev =
     \<lparr>Values = [stringValue (formatMillis e (the (Timestamp ev))),
                stringValue (formatMillis e (the (IngestionTime ev))),
                stringValue (the (LogStreamName ev)),
                stringValue (the (Message ev))]\<rparr>"

text \<open>A client for a region can be had when it is cached or a session can be built.\<close>

definition clientAvailable :: "env \<Rightarrow> world \<Rightarrow> string \<Rightarrow> bool" where
  "clientAvailable e w region =
     (case clientCache w region of
        Some client \<Rightarrow> True
      | None \<Rightarrow> (case NewSession e region of Inl err \<Rightarrow> False | Inr sess \<Rightarrow> True))"

text \<open>
  The mode of a request, as \<^verbatim>\<open>Query\<close> finds it: the first query's model parses, and its
  \<^verbatim>\<open>queryType\<close> is \<^verbatim>\<open>metricFindQuery\<close>, or \<^verbatim>\<open>annotationQuery\<close>, or anything else.
\<close>

definition queryMode :: "env \<Rightarrow> DatasourceRequest \<Rightarrow> string option" where
  "queryMode e tsdbReq =
     (case Queries tsdbReq of
        [] \<Rightarrow> None
      | query0 # _ \<Rightarrow>
          (case NewJson e (ModelJson query0) of
             Inl err \<Rightarrow> None
           | Inr modelJson \<Rightarrow> Some (MustString (Get modelJson ''queryType''))))"

definition bulkMode :: "env \<Rightarrow> DatasourceRequest \<Rightarrow> bool" where
  "bulkMode e tsdbReq =
     (case queryMode e tsdbReq of
        None \<Rightarrow> False
      | Some queryType \<Rightarrow> queryType \<noteq> ''metricFindQuery'' \<and> queryType \<noteq> ''annotationQuery'')"

text \<open>A search succeeds when the listing ends without an error and every record listed is complete.\<close>

definition fetchSucceeds :: "env \<Rightarrow> client \<Rightarrow> FilterLogEventsInput \<Rightarrow> bool" where
  "fetchSucceeds e svc input =
     (case FilterLogEvents e svc input of
        (pages, Some err) \<Rightarrow> False
      | (pages, None) \<Rightarrow> list_all completeEvent (concat (map Events pages)))"

text \<open>
  The registry is in order when, for every region, a region whose session cannot be built
  has no client, and a region whose session can be built either has no client and no
  session was ever requested for it, or has one client, made from that session, and the
  session was requested exactly once.
\<close>

definition registry_ok :: "env \<Rightarrow> world \<Rightarrow> bool" where
  "registry_ok e w =
     (\<forall>region.
        case NewSession e region of
          Inl err \<Rightarrow> clientCache w region = None
        | Inr sess \<Rightarrow>
            (case clientCache w region of
               None \<Rightarrow> count_list (NewSession_calls w) region = 0
             | Some client \<Rightarrow>
                 client_session client = sess \<and> count_list (NewSession_calls w) region = 1))"

text \<open>
  Reading a printed number back: the value of a string of decimal digits, and of such a
  string after an optional minus sign.
\<close>

definition digitValue :: "char \<Rightarrow> nat" where
  "digitValue c = of_char c - 48"

definition decimalValue :: "string \<Rightarrow> nat" where
  "decimalValue s = foldl (\<lambda>a c. 10 * a + digitValue c) 0 s"

definition intValue :: "string \<Rightarrow> int" where
  "intValue s =
     (case s of
        [] \<Rightarrow> 0
      | c # cs \<Rightarrow> if c = CHR ''-'' then - int (decimalValue cs) else int (decimalValue s))"

text \<open>
  The days before a year and the day within a year of a date, counted as \<^verbatim>\<open>absDate\<close> and
  \<^verbatim>\<open>monthDay\<close> count them.
\<close>

definition daysBeforeYear :: "int \<Rightarrow> int" where
  "daysBeforeYear year = 365 * (year - 1) + (year - 1) div 4 - (year - 1) div 100 + (year - 1) div 400"

definition dayOfYear :: "int \<Rightarrow> int \<Rightarrow> int \<Rightarrow> int" where
  "dayOfYear year month day =
     daysBefore ! nat (month - 1) + day - 1 + (if isLeap year \<and> 2 < month then 1 else 0)"

text \<open>
  What the documentation of \<^verbatim>\<open>sort.Slice\<close> promises: the slice is rearranged, and when
  \<^verbatim>\<open>less\<close> is a strict weak ordering of its elements no element is followed by one
  that is less. It does not promise to keep the order of elements neither of which is
  less than the other.
\<close>

definition strictWeak :: "('a \<Rightarrow> 'a \<Rightarrow> bool) \<Rightarrow> 'a set \<Rightarrow> bool" where
  "strictWeak lessf A =
     (\<forall>a \<in> A. \<forall>b \<in> A. \<forall>c \<in> A.
        \<not> lessf a a \<and> (lessf a b \<and> lessf b c \<longrightarrow> lessf a c) \<and> (\<not> lessf a b \<and> \<not> lessf b c \<longrightarrow> \<not> lessf a c))"

definition Slice_sorts :: "(('a \<Rightarrow> 'a \<Rightarrow> bool) \<Rightarrow> 'a list \<Rightarrow> 'a list) \<Rightarrow> bool" where
  "Slice_sorts srt =
     (\<forall>lessf xs.
        mset (srt lessf xs) = mset xs \<and>
        (strictWeak lessf (set xs) \<longrightarrow> sorted_wrt (\<lambda>a b. \<not> lessf b a) (srt lessf xs)))"

text \<open>
  The order the specification words for the group suggestions: by creation time, latest
  first, groups of equal creation time in the order the service listed them.
\<close>

definition stableByCreation :: "LogGroup list \<Rightarrow> LogGroup list" where
  "stableByCreation groups = sort_key (\<lambda>g. - sint (the (CreationTime g))) groups"

section \<open>An example environment\<close>

text \<open>
  \<^verbatim>\<open>sort.Slice\<close> as the Go releases up to 1.18 run it on a slice of at most twelve
  elements: one pass that compares and swaps elements six places apart, then insertion
  sort. (A longer slice is first partitioned by quicksort; the function below, applied
  to a longer slice, still sorts it.)
\<close>

definition Swap :: "nat \<Rightarrow> nat \<Rightarrow> 'a list \<Rightarrow> 'a list" where
  "Swap i j xs = xs[i := xs ! j, j := xs ! i]"

fun insertLeft :: "('a \<Rightarrow> 'a \<Rightarrow> bool) \<Rightarrow> nat \<Rightarrow> 'a list \<Rightarrow> 'a list" where
  "insertLeft lessf 0 xs = xs"
| "insertLeft lessf (Suc j) xs =
     (if lessf (xs ! Suc j) (xs ! j) then insertLeft lessf j (Swap (Suc j) j xs) else xs)"

definition insertionSort_func :: "('a \<Rightarrow> 'a \<Rightarrow> bool) \<Rightarrow> 'a list \<Rightarrow> 'a list" where
  "insertionSort_func lessf xs = foldl (\<lambda>ys i. insertLeft lessf i ys) xs [1..<length xs]"

definition gapPass :: "('a \<Rightarrow> 'a \<Rightarrow> bool) \<Rightarrow> 'a list \<Rightarrow> 'a list" where
  "gapPass lessf xs =
     foldl (\<lambda>ys i. if lessf (ys ! i) (ys ! (i - 6)) then Swap i (i - 6) ys else ys) xs [6..<length xs]"

definition Slice_short :: "('a \<Rightarrow> 'a \<Rightarrow> bool) \<Rightarrow> 'a list \<Rightarrow> 'a list" where
  "Slice_short lessf xs = (if 1 < length xs then insertionSort_func lessf (gapPass lessf xs) else xs)"

text \<open>
  What \<^verbatim>\<open>insertLeft\<close> does, told on the sorted prefix read backwards: the new element
  passes every element it is less than.
\<close>

fun insertBack :: "('a \<Rightarrow> 'a \<Rightarrow> bool) \<Rightarrow> 'a \<Rightarrow> 'a list \<Rightarrow> 'a list" where
  "insertBack lessf x [] = [x]"
| "insertBack lessf x (y # ys) = (if lessf x y then y # insertBack lessf x ys else x # y # ys)"

text \<open>Query models, as the host sends them, and what they decode to.\<close>

definition modelA :: string where
  \<open>modelA = ''{"refId":"A","format":"table","region":"us-east-1","input":{"logGroupName":"/aws/app"}}''\<close>

definition modelB :: string where
  \<open>modelB = ''{"refId":"B","format":"table","region":"eu-west-1","input":{"logGroupName":"/aws/app"}}''\<close>

definition modelC :: string where
  \<open>modelC = ''{"refId":"C","format":"timeserie","region":"us-east-1","input":{"logGroupName":"/aws/gone"}}''\<close>

definition modelD :: string where
  \<open>modelD = ''{"refId":"D","format":"timeserie","region":"eu-west-1","input":{"logGroupName":"/aws/app"}}''\<close>

definition modelN :: string where
  \<open>modelN = ''{"queryType":"annotationQuery","region":"us-east-1","input":{"logGroupName":"/aws/app"}}''\<close>

definition modelG :: string where
  \<open>modelG = ''{"queryType":"metricFindQuery","subtype":"log_group_names","region":"us-east-1","prefix":"/aws"}''\<close>

definition modelU :: string where
  \<open>modelU = ''{"queryType":"metricFindQuery","subtype":"metric_names","region":"us-east-1"}''\<close>

definition input0 :: "string \<Rightarrow> FilterLogEventsInput" where
  "input0 name =
     \<lparr>LogGroupName_in = Some name, LogStreamNames = [], FilterPattern = None, Interleaved = None,
      Limit = None, NextToken = None, StartTime = None, EndTime = None\<rparr>"

definition documents :: "(string \<times> json) list" where
  "documents =
     [(modelA, JObject [(''refId'', JString ''A''), (''format'', JString ''table''), (''region'', JString ''us-east-1''),
                        (''input'', JObject [(''logGroupName'', JString ''/aws/app'')])]),
      (modelB, JObject [(''refId'', JString ''B''), (''format'', JString ''table''), (''region'', JString ''eu-west-1''),
                        (''input'', JObject [(''logGroupName'', JString ''/aws/app'')])]),
      (modelC, JObject [(''refId'', JString ''C''), (''format'', JString ''timeserie''), (''region'', JString ''us-east-1''),
                        (''input'', JObject [(''logGroupName'', JString ''/aws/gone'')])]),
      (modelD, JObject [(''refId'', JString ''D''), (''format'', JString ''timeserie''), (''region'', JString ''eu-west-1''),
                        (''input'', JObject [(''logGroupName'', JString ''/aws/app'')])]),
      (modelN, JObject [(''queryType'', JString ''annotationQuery''), (''region'', JString ''us-east-1''),
                        (''input'', JObject [(''logGroupName'', JString ''/aws/app'')])]),
      (modelG, JObject [(''queryType'', JString ''metricFindQuery''), (''subtype'', JString ''log_group_names''),
                        (''region'', JString ''us-east-1''), (''prefix'', JString ''/aws'')]),
      (modelU, JObject [(''queryType'', JString ''metricFindQuery''), (''subtype'', JString ''metric_names''),
                        (''region'', JString ''us-east-1'')])]"

definition targets0 :: "(string \<times> Target) list" where
  "targets0 =
     [(modelA, \<lparr>RefId = ''A'', QueryType = [], Format = ''table'', Region = ''us-east-1'', Input = input0 ''/aws/app''\<rparr>),
      (modelB, \<lparr>RefId = ''B'', QueryType = [], Format = ''table'', Region = ''eu-west-1'', Input = input0 ''/aws/app''\<rparr>),
      (modelC, \<lparr>RefId = ''C'', QueryType = [], Format = ''timeserie'', Region = ''us-east-1'', Input = input0 ''/aws/gone''\<rparr>),
      (modelD, \<lparr>RefId = ''D'', QueryType = [], Format = ''timeserie'', Region = ''eu-west-1'', Input = input0 ''/aws/app''\<rparr>),
      (modelN, \<lparr>RefId = [], QueryType = ''annotationQuery'', Format = [], Region = ''us-east-1'', Input = input0 ''/aws/app''\<rparr>)]"

definition event :: "int64 \<Rightarrow> int64 \<Rightarrow> string \<Rightarrow> string \<Rightarrow> FilteredLogEvent" where
  "event ts it stream msg =
     \<lparr>EventId = None, IngestionTime = Some it, LogStreamName = Some stream, Message = Some msg, Timestamp = Some ts\<rparr>"

definition pages0 :: "FilterLogEventsOutput list" where
  "pages0 =
     [\<lparr>Events = [event 1700000000123 1700000000456 ''web-1'' ''GET /'',
                  event 1700000001000 1700000003000 ''web-2'' ''GET /health'']\<rparr>,
      \<lparr>Events = [event 1700000002000 1700000002500 ''web-1'' ''POST /login'']\<rparr>]"

definition logGroup :: "string \<Rightarrow> int64 \<Rightarrow> LogGroup" where
  "logGroup name created = \<lparr>CreationTime = Some created, LogGroupName = Some name\<rparr>"

definition groupPages0 :: "DescribeLogGroupsOutput list" where
  "groupPages0 =
     [\<lparr>LogGroups = [logGroup ''/aws/a'' 1000, logGroup ''/aws/b'' 1000, logGroup ''/aws/c'' 1000, logGroup ''/aws/d'' 1000]\<rparr>,
      \<lparr>LogGroups = [logGroup ''/aws/e'' 1000, logGroup ''/aws/f'' 1000, logGroup ''/aws/g'' 2000]\<rparr>]"

definition streamPages0 :: "DescribeLogStreamsOutput list" where
  "streamPages0 =
     [\<lparr>LogStreams = [\<lparr>CreationTime_s = Some 10, LogStreamName_s = Some ''web-1''\<rparr>]\<rparr>,
      \<lparr>LogStreams = [\<lparr>CreationTime_s = Some 20, LogStreamName_s = Some ''web-2''\<rparr>]\<rparr>]"

definition fromTable :: "(string \<times> 'a) list \<Rightarrow> string \<Rightarrow> string \<Rightarrow> string + 'a" where
  "fromTable table err key = (case map_of table key of None \<Rightarrow> Inl err | Some v \<Rightarrow> Inr v)"

text \<open>
  The environment: a service in which the log group \<^verbatim>\<open>/aws/gone\<close> does not exist and
  every other search yields the two pages above; the local zone is UTC.
\<close>

definition env0 :: env where
  "env0 =
     \<lparr>NewJson = fromTable documents ''invalid character'',
      Unmarshal = fromTable targets0 ''json: cannot unmarshal'',
      ParseInt = fromTable [(''1699999000000'', 1699999000000), (''1700000003000'', 1700000003000)] ''invalid syntax'',
      Marshal = (\<lambda>resp. Inr (concat (map (\<lambda>ev. case Message ev of None \<Rightarrow> ''null;'' | Some m \<Rightarrow> m @ '';'') (Events resp)))),
      NewSession = (\<lambda>region. Inr (Session region)),
      FilterLogEvents = (\<lambda>svc input.
         if LogGroupName_in input = Some ''/aws/gone'' then ([], Some ''ResourceNotFoundException'')
         else (pages0, None)),
      DescribeLogGroups = (\<lambda>svc input. (groupPages0, None)),
      DescribeLogStreams = (\<lambda>svc input. (streamPages0, None)),
      Local = (\<lambda>unix. 0),
      Slice_groups = Slice_short,
      Slice_streams = Slice_short\<rparr>"

text \<open>The same environment on a machine whose shared configuration cannot be loaded, so that no session can be built.\<close>

definition env_nosession :: env where
  "env_nosession = env0\<lparr>NewSession := (\<lambda>region. Inl ''SharedConfigLoadError'')\<rparr>"


definition timeRange0 :: TimeRange where
  "timeRange0 = \<lparr>FromRaw = ''1699999000000'', ToRaw = ''1700000003000''\<rparr>"

definition request :: "string list \<Rightarrow> DatasourceRequest" where
  "request models = \<lparr>TimeRange = Some timeRange0, Queries = map (\<lambda>m. \<lparr>ModelJson = m\<rparr>) models\<rparr>"

text \<open>The world after the first client, for \<^verbatim>\<open>us-east-1\<close>, was built.\<close>

definition client0 :: client where
  "client0 = Client 0 (Session ''us-east-1'')"

definition world1 :: world where
  "world1 = \<lparr>clientCache = [''us-east-1'' \<mapsto> client0], NewSession_calls = [''us-east-1'']\<rparr>"

text \<open>The world after a session for \<^verbatim>\<open>us-east-1\<close> was requested in vain.\<close>

definition world_failed :: world where
  "world_failed = \<lparr>clientCache = Map.empty, NewSession_calls = [''us-east-1'']\<rparr>"

section \<open>Properties\<close>

subsection \<open>The paged operations\<close>

text \<open>With the callbacks of the file, a paged operation yields all pages' items, in order, and the listing's error.\<close>

lemma paginate_eventsPage:
  "paginate eventsPage pages err resp = (resp\<lparr>Events := Events resp @ concat (map Events pages)\<rparr>, err)"
  by (induction pages arbitrary: resp) (auto simp: eventsPage_def)

lemma paginate_groupsPage:
  "paginate groupsPage pages err groups = (groups\<lparr>LogGroups := LogGroups groups @ concat (map LogGroups pages)\<rparr>, err)"
  by (induction pages arbitrary: groups) (auto simp: groupsPage_def)

lemma paginate_streamsPage:
  "paginate streamsPage pages err streams = (streams\<lparr>LogStreams := LogStreams streams @ concat (map LogStreams pages)\<rparr>, err)"
  by (induction pages arbitrary: streams) (auto simp: streamsPage_def)

lemma FilterLogEventsPages_eventsPage:
  "FilterLogEventsPages e svc input eventsPage \<lparr>Events = []\<rparr> =
     (\<lparr>Events = concat (map Events (fst (FilterLogEvents e svc input)))\<rparr>, snd (FilterLogEvents e svc input))"
  by (simp add: FilterLogEventsPages_def paginate_eventsPage split: prod.splits)

subsection \<open>The client registry\<close>

lemma GetClient_hit:
  "clientCache w region = Some c \<Longrightarrow> GetClient e w region = (w, Inr c)"
  by (simp add: GetClient_def)

lemma GetClient_miss_Inl:
  "clientCache w region = None \<Longrightarrow> NewSession e region = Inl err \<Longrightarrow>
   GetClient e w region = (w\<lparr>NewSession_calls := region # NewSession_calls w\<rparr>, Inl (Err err))"
  by (simp add: GetClient_def)

lemma GetClient_miss_Inr:
  "clientCache w region = None \<Longrightarrow> NewSession e region = Inr sess \<Longrightarrow>
   GetClient e w region =
          (w\<lparr>NewSession_calls := region # NewSession_calls w,
              clientCache := (clientCache w)(region \<mapsto> Client (length (NewSession_calls w)) sess)\<rparr>,
           Inr (Client (length (NewSession_calls w)) sess))"
  by (simp add: GetClient_def Let_def)

lemma GetClient_cached:
  assumes "GetClient e w region = (w1, Inr c)"
  shows "clientCache w1 region = Some c"
proof (cases "clientCache w region")
  case (Some c')
  with assms show ?thesis by (simp add: GetClient_hit)
next
  case None
  show ?thesis
  proof (cases "NewSession e region")
    case (Inl err)
    with None assms show ?thesis by (simp add: GetClient_miss_Inl)
  next
    case (Inr sess)
    from assms show ?thesis
      unfolding GetClient_miss_Inr [OF None Inr] by auto
  qed
qed

lemma GetClient_again:
  "GetClient e w region = (w1, Inr c) \<Longrightarrow> GetClient e w1 region = (w1, Inr c)"
  by (rule GetClient_hit [OF GetClient_cached])

lemma GetClient_keeps:
  assumes "clientCache w r = Some c"
  shows "clientCache (fst (GetClient e w region)) r = Some c"
proof (cases "clientCache w region")
  case (Some c')
  with assms show ?thesis by (simp add: GetClient_hit)
next
  case None
  with assms have "r \<noteq> region" by auto
  with assms None show ?thesis
    by (cases "NewSession e region") (simp_all add: GetClient_miss_Inl GetClient_miss_Inr)
qed

lemma GetClient_first:
  assumes "clientCache w region = None" and "GetClient e w region = (w1, Inr c)"
  shows "NewSession_calls w1 = region # NewSession_calls w \<and> clientCache w1 = (clientCache w)(region \<mapsto> c)"
proof (cases "NewSession e region")
  case (Inl err)
  with assms show ?thesis by (simp add: GetClient_miss_Inl)
next
  case (Inr sess)
  from assms(2) show ?thesis
    unfolding GetClient_miss_Inr [OF assms(1) Inr] by auto
qed

lemma GetClient_registry_ok:
  assumes "registry_ok e w"
  shows "registry_ok e (fst (GetClient e w region))"
proof (cases "clientCache w region")
  case (Some c)
  with assms show ?thesis by (simp add: GetClient_hit)
next
  case None
  note miss = this
  show ?thesis
  proof (cases "NewSession e region")
    case (Inl err)
    have "registry_ok e (w\<lparr>NewSession_calls := region # NewSession_calls w\<rparr>)"
      unfolding registry_ok_def
    proof
      fix r
      from assms have "case NewSession e r of
          Inl err \<Rightarrow> clientCache w r = None
        | Inr sess \<Rightarrow>
            (case clientCache w r of
               None \<Rightarrow> count_list (NewSession_calls w) r = 0
             | Some client \<Rightarrow>
                 client_session client = sess \<and> count_list (NewSession_calls w) r = 1)"
        unfolding registry_ok_def by (rule spec)
      with Inl show "case NewSession e r of
          Inl err \<Rightarrow> clientCache (w\<lparr>NewSession_calls := region # NewSession_calls w\<rparr>) r = None
        | Inr sess \<Rightarrow>
            (case clientCache (w\<lparr>NewSession_calls := region # NewSession_calls w\<rparr>) r of
               None \<Rightarrow> count_list (NewSession_calls (w\<lparr>NewSession_calls := region # NewSession_calls w\<rparr>)) r = 0
             | Some client \<Rightarrow>
                 client_session client = sess \<and>
                 count_list (NewSession_calls (w\<lparr>NewSession_calls := region # NewSession_calls w\<rparr>)) r = 1)"
        by (cases "r = region") (auto split: sum.splits option.splits)
    qed
    with miss Inl show ?thesis by (simp add: GetClient_miss_Inl)
  next
    case (Inr sess)
    let ?c = "Client (length (NewSession_calls w)) sess"
    let ?w = "w\<lparr>NewSession_calls := region # NewSession_calls w, clientCache := (clientCache w)(region \<mapsto> ?c)\<rparr>"
    have "registry_ok e ?w"
      unfolding registry_ok_def
    proof
      fix r
      from assms have "case NewSession e r of
          Inl err \<Rightarrow> clientCache w r = None
        | Inr sess \<Rightarrow>
            (case clientCache w r of
               None \<Rightarrow> count_list (NewSession_calls w) r = 0
             | Some client \<Rightarrow>
                 client_session client = sess \<and> count_list (NewSession_calls w) r = 1)"
        unfolding registry_ok_def by (rule spec)
      with Inr miss show "case NewSession e r of
          Inl err \<Rightarrow> clientCache ?w r = None
        | Inr sess \<Rightarrow>
            (case clientCache ?w r of
               None \<Rightarrow> count_list (NewSession_calls ?w) r = 0
             | Some client \<Rightarrow>
                 client_session client = sess \<and> count_list (NewSession_calls ?w) r = 1)"
        by (cases "r = region") (auto split: sum.splits option.splits)
    qed
    with miss Inr show ?thesis by (simp add: GetClient_miss_Inr)
  qed
qed

lemma registry_ok_world0: "registry_ok e world0"
  by (simp add: registry_ok_def world0_def split: sum.splits)

subsection \<open>Rows\<close>

lemma eventRow_eq:
  "eventRow e ev = (if completeEvent ev then Inr (rowOf e ev) else Inl (Panic NilPointerDereference))"
  by (auto simp: eventRow_def completeEvent_def rowOf_def split: option.splits)

lemma eventRows_eq:
  "eventRows e evs rows =
     (if list_all completeEvent evs then Inr (rows @ map (rowOf e) evs) else Inl (Panic NilPointerDereference))"
  by (induction evs arbitrary: rows) (simp_all add: eventRow_eq)

lemma parseTableResponse_eq:
  "parseTableResponse e resp refId =
     (if list_all completeEvent (Events resp)
      then Inr \<lparr>Error = [], RefId_res = refId, MetaJson = [],
                Tables = [\<lparr>Columns = [\<lparr>Name = ''Timestamp''\<rparr>, \<lparr>Name = ''IngestionTime''\<rparr>,
                                       \<lparr>Name = ''LogStreamName''\<rparr>, \<lparr>Name = ''Message''\<rparr>],
                            Rows = map (rowOf e) (Events resp)\<rparr>]\<rparr>
      else Inl (Panic NilPointerDereference))"
  by (simp add: parseTableResponse_def eventRows_eq QueryResult0_def)

subsection \<open>The loops and the dispatcher\<close>

lemma fetchTargets_Cons_Inl:
  "GetClient e w (Region target) = (w1, Inl f) \<Longrightarrow>
   fetchTargets e w (target # targets) response = (w1, Inl f)"
  by simp

lemma fetchTargets_Cons_Inr:
  "GetClient e w (Region target) = (w1, Inr svc) \<Longrightarrow>
   FilterLogEvents e svc (Input target) = (pages, err) \<Longrightarrow>
   fetchTargets e w (target # targets) response =
     (case err of
        Some m \<Rightarrow> (w1, Inl (Err m))
      | None \<Rightarrow>
          if Format target = ''timeserie'' then (w1, Inl (Err ''not supported''))
          else if Format target = ''table'' then
            (case parseTableResponse e \<lparr>Events = concat (map Events pages)\<rparr> (RefId target) of
               Inl f \<Rightarrow> (w1, Inl f)
             | Inr r \<Rightarrow> fetchTargets e w1 targets (response\<lparr>Results := Results response @ [r]\<rparr>))
          else fetchTargets e w1 targets response)"
  by (simp add: FilterLogEventsPages_eventsPage split: option.splits)

lemma fetchTargets_fst:
  "fst (fetchTargets e w (target # targets) response) = fst (GetClient e w (Region target)) \<or>
   (\<exists>response'. fst (fetchTargets e w (target # targets) response) =
       fst (fetchTargets e (fst (GetClient e w (Region target))) targets response'))"
proof -
  obtain w1 res where g: "GetClient e w (Region target) = (w1, res)"
    by (cases "GetClient e w (Region target)")
  show ?thesis
  proof (cases res)
    case (Inl f)
    with g show ?thesis by (simp add: fetchTargets_Cons_Inl)
  next
    case (Inr svc)
    obtain pages err where f: "FilterLogEvents e svc (Input target) = (pages, err)"
      by (cases "FilterLogEvents e svc (Input target)")
    from g Inr have g': "GetClient e w (Region target) = (w1, Inr svc)" by simp
    show ?thesis
      unfolding fetchTargets_Cons_Inr [OF g' f] g'
      by (auto split: option.splits sum.splits)
  qed
qed

lemma fetchTargets_keeps:
  assumes step: "\<And>w region. P w \<Longrightarrow> P (fst (GetClient e w region))"
  shows "P w \<Longrightarrow> P (fst (fetchTargets e w targets response))"
proof (induction targets arbitrary: w response)
  case Nil
  then show ?case by simp
next
  case (Cons target targets)
  from Cons.prems have w1: "P (fst (GetClient e w (Region target)))" by (rule step)
  with Cons.IH [OF w1] fetchTargets_fst [of e w target targets response] show ?case
    by auto
qed

lemma handleQuery_keeps:
  assumes step: "\<And>w region. P w \<Longrightarrow> P (fst (GetClient e w region))"
  shows "P w \<Longrightarrow> P (fst (handleQuery e w tsdbReq))"
  by (simp add: handleQuery_def fetchTargets_keeps [where P = P, OF step] split: option.splits sum.splits)

lemma metricFindQuery_fst:
  "fst (metricFindQuery e w parameters) = fst (GetClient e w (MustString (Get parameters ''region'')))"
proof -
  obtain w1 res where g: "GetClient e w (MustString (Get parameters ''region'')) = (w1, res)"
    by (cases "GetClient e w (MustString (Get parameters ''region''))")
  then show ?thesis
    by (cases res) (simp_all add: metricFindQuery_def Let_def split: sum.splits)
qed

lemma annotationQuery_fst:
  "fst (annotationQuery e w tsdbReq query0) = w \<or>
   (\<exists>region. fst (annotationQuery e w tsdbReq query0) = fst (GetClient e w region))"
proof (cases "Unmarshal e (ModelJson query0)")
  case (Inl err)
  then show ?thesis by (simp add: annotationQuery_def)
next
  case (Inr target0)
  note u = this
  show ?thesis
  proof (cases "TimeRange tsdbReq")
    case None
    with u show ?thesis by (simp add: annotationQuery_def)
  next
    case (Some timeRange)
    note tr = this
    show ?thesis
    proof (cases "ParseInt e (FromRaw timeRange)")
      case (Inl err)
      with u tr show ?thesis by (simp add: annotationQuery_def)
    next
      case (Inr fromRaw)
      note f = this
      show ?thesis
      proof (cases "ParseInt e (ToRaw timeRange)")
        case (Inl err)
        with u tr f show ?thesis by (simp add: annotationQuery_def)
      next
        case (Inr toRaw)
        obtain w1 res where g: "GetClient e w (Region (withTimes fromRaw toRaw target0)) = (w1, res)"
          by (cases "GetClient e w (Region (withTimes fromRaw toRaw target0))")
        have "fst (annotationQuery e w tsdbReq query0) = w1"
          using u tr f Inr g
          by (cases res) (simp_all add: annotationQuery_def Let_def split: prod.splits option.splits sum.splits)
        with g show ?thesis by (metis fst_conv)
      qed
    qed
  qed
qed

lemma Query_fst:
  "fst (Query e w tsdbReq) = w \<or> (\<exists>region. fst (Query e w tsdbReq) = fst (GetClient e w region)) \<or>
   fst (Query e w tsdbReq) = fst (handleQuery e w tsdbReq)"
proof (cases "Queries tsdbReq")
  case Nil
  then show ?thesis by (simp add: Query_def)
next
  case (Cons query0 rest)
  note q = this
  show ?thesis
  proof (cases "NewJson e (ModelJson query0)")
    case (Inl err)
    with q show ?thesis by (simp add: Query_def)
  next
    case (Inr modelJson)
    have m: "fst (case metricFindQuery e w modelJson of
               (w1, Inl (Err err)) \<Rightarrow>
                 (w1, Inr \<lparr>Results = [QueryResult0\<lparr>RefId_res := ''metricFindQuery'', Error := err\<rparr>]\<rparr>)
             | (w1, Inl (Panic p)) \<Rightarrow> (w1, Inl (Panic p))
             | (w1, Inr response) \<Rightarrow> (w1, Inr response)) = fst (metricFindQuery e w modelJson)"
      by (simp split: prod.splits sum.splits failure.splits)
    have h: "fst (case handleQuery e w tsdbReq of
               (w1, Inl (Err err)) \<Rightarrow> (w1, Inr \<lparr>Results = [QueryResult0\<lparr>Error := err\<rparr>]\<rparr>)
             | (w1, Inl (Panic p)) \<Rightarrow> (w1, Inl (Panic p))
             | (w1, Inr response) \<Rightarrow> (w1, Inr response)) = fst (handleQuery e w tsdbReq)"
      by (simp split: prod.splits sum.splits failure.splits)
    from q Inr show ?thesis
      using annotationQuery_fst [of e w tsdbReq query0]
      by (auto simp add: Query_def m h metricFindQuery_fst)
  qed
qed

lemma Query_keeps:
  assumes step: "\<And>w region. P w \<Longrightarrow> P (fst (GetClient e w region))"
  shows "P w \<Longrightarrow> P (fst (Query e w tsdbReq))"
  using Query_fst [of e w tsdbReq] handleQuery_keeps [where P = P, OF step, of w tsdbReq] step [of w]
  by auto

lemma decodeTargets_Inr:
  "decodeTargets e fromRaw toRaw queries acc = Inr targets \<longleftrightarrow>
     (\<exists>ts. map (\<lambda>query. Unmarshal e (ModelJson query)) queries = map Inr ts \<and>
           targets = acc @ map (withTimes fromRaw toRaw) ts)"
proof (induction queries arbitrary: acc)
  case Nil
  then show ?case by auto
next
  case (Cons query queries)
  show ?case
  proof (cases "Unmarshal e (ModelJson query)")
    case (Inl err)
    then show ?thesis by (auto simp: map_eq_Cons_conv)
  next
    case (Inr target)
    then show ?thesis
      by (simp add: Cons.IH) (auto simp: map_eq_Cons_conv Cons_eq_map_conv)
  qed
qed


lemma GetClient_available:
  assumes "clientAvailable e w region"
  shows "\<exists>w1 svc. GetClient e w region = (w1, Inr svc)"
proof (cases "clientCache w region")
  case (Some c)
  then show ?thesis by (simp add: GetClient_hit)
next
  case None
  with assms obtain sess where "NewSession e region = Inr sess"
    by (auto simp: clientAvailable_def split: sum.splits)
  with None show ?thesis by (simp add: GetClient_miss_Inr)
qed

lemma clientAvailable_keeps:
  assumes "clientAvailable e w r"
  shows "clientAvailable e (fst (GetClient e w region)) r"
proof (cases "clientCache w r")
  case (Some c)
  then have "clientCache (fst (GetClient e w region)) r = Some c" by (rule GetClient_keeps)
  then show ?thesis by (simp add: clientAvailable_def)
next
  case None
  with assms show ?thesis
    by (auto simp: clientAvailable_def split: sum.splits option.splits)
qed

lemma parseTableResponse_Inr:
  assumes "parseTableResponse e resp refId = Inr r"
  shows "RefId_res r = refId \<and> Error r = [] \<and> MetaJson r = [] \<and> (\<exists>table. Tables r = [table])"
  using assms by (simp add: parseTableResponse_eq split: if_splits) auto

lemma fetchTargets_table:
  assumes "fetchTargets e w targets response = (w1, Inr response')"
    and "\<forall>target \<in> set targets. Format target = ''table''"
  shows "\<exists>rs. Results response' = Results response @ rs \<and> length rs = length targets \<and>
           (\<forall>i < length targets.
              RefId_res (rs ! i) = RefId (targets ! i) \<and> Error (rs ! i) = [] \<and>
              (\<exists>table. Tables (rs ! i) = [table]))"
  using assms
proof (induction targets arbitrary: w response)
  case Nil
  then show ?case by simp
next
  case (Cons target targets)
  obtain w2 res where g: "GetClient e w (Region target) = (w2, res)"
    by (cases "GetClient e w (Region target)")
  from Cons.prems(1) g obtain svc where svc: "res = Inr svc"
    by (cases res) (simp_all add: fetchTargets_Cons_Inl)
  obtain pages err where f: "FilterLogEvents e svc (Input target) = (pages, err)"
    by (cases "FilterLogEvents e svc (Input target)")
  from g svc have g': "GetClient e w (Region target) = (w2, Inr svc)" by simp
  from Cons.prems(2) have fmt: "Format target = ''table''" by simp
  note step = fetchTargets_Cons_Inr [OF g' f, of targets response]
  from Cons.prems(1) step have err: "err = None" by (cases err) simp_all
  from Cons.prems(1) step err fmt
  obtain r where r: "parseTableResponse e \<lparr>Events = concat (map Events pages)\<rparr> (RefId target) = Inr r"
    by (cases "parseTableResponse e \<lparr>Events = concat (map Events pages)\<rparr> (RefId target)") simp_all
  from Cons.prems(1) step err fmt r
  have rest: "fetchTargets e w2 targets (response\<lparr>Results := Results response @ [r]\<rparr>) = (w1, Inr response')"
    by simp
  from Cons.prems(2) have "\<forall>target \<in> set targets. Format target = ''table''" by simp
  from Cons.IH [OF rest this]
  obtain rs where rs: "Results response' = Results response @ [r] @ rs" "length rs = length targets"
      "\<forall>i < length targets. RefId_res (rs ! i) = RefId (targets ! i) \<and> Error (rs ! i) = [] \<and>
              (\<exists>table. Tables (rs ! i) = [table])"
    by auto
  note pr = parseTableResponse_Inr [OF r]
  have "\<forall>i < length (target # targets).
          RefId_res ((r # rs) ! i) = RefId ((target # targets) ! i) \<and> Error ((r # rs) ! i) = [] \<and>
          (\<exists>table. Tables ((r # rs) ! i) = [table])"
  proof (intro allI impI)
    fix i
    assume "i < length (target # targets)"
    with rs(2,3) pr show "RefId_res ((r # rs) ! i) = RefId ((target # targets) ! i) \<and> Error ((r # rs) ! i) = [] \<and>
          (\<exists>table. Tables ((r # rs) ! i) = [table])"
      by (cases i) simp_all
  qed
  with rs(1,2) show ?case
    by (intro exI [of _ "r # rs"]) simp
qed

lemma fetchTargets_succeeds:
  assumes "\<forall>target \<in> set targets.
             Format target = ''table'' \<and> clientAvailable e w (Region target) \<and>
             (\<forall>svc. fetchSucceeds e svc (Input target))"
  shows "\<exists>w1 response'. fetchTargets e w targets response = (w1, Inr response')"
  using assms
proof (induction targets arbitrary: w response)
  case Nil
  then show ?case by simp
next
  case (Cons target targets)
  from Cons.prems have av: "clientAvailable e w (Region target)" and fmt: "Format target = ''table''"
    by simp_all
  from GetClient_available [OF av] obtain w2 svc where g: "GetClient e w (Region target) = (w2, Inr svc)"
    by blast
  from Cons.prems have "fetchSucceeds e svc (Input target)" by simp
  then obtain pages where f: "FilterLogEvents e svc (Input target) = (pages, None)"
    and c: "list_all completeEvent (concat (map Events pages))"
    by (cases "FilterLogEvents e svc (Input target)") (auto simp: fetchSucceeds_def split: option.splits)
  from c obtain r where r: "parseTableResponse e \<lparr>Events = concat (map Events pages)\<rparr> (RefId target) = Inr r"
    by (simp add: parseTableResponse_eq)
  have "\<forall>target \<in> set targets.
             Format target = ''table'' \<and> clientAvailable e w2 (Region target) \<and>
             (\<forall>svc. fetchSucceeds e svc (Input target))"
  proof
    fix t
    assume t: "t \<in> set targets"
    with Cons.prems have "clientAvailable e w (Region t)" by simp
    then have "clientAvailable e (fst (GetClient e w (Region target))) (Region t)"
      by (rule clientAvailable_keeps)
    with g t Cons.prems show "Format t = ''table'' \<and> clientAvailable e w2 (Region t) \<and>
             (\<forall>svc. fetchSucceeds e svc (Input t))"
      by simp
  qed
  from Cons.IH [OF this]
  obtain w1 response' where "fetchTargets e w2 targets (response\<lparr>Results := Results response @ [r]\<rparr>) = (w1, Inr response')"
    by blast
  with fetchTargets_Cons_Inr [OF g f, of targets response] fmt r show ?case
    by simp
qed

lemma withTimes_fields [simp]:
  "RefId (withTimes fromRaw toRaw target) = RefId target"
  "Format (withTimes fromRaw toRaw target) = Format target"
  "Region (withTimes fromRaw toRaw target) = Region target"
  "QueryType (withTimes fromRaw toRaw target) = QueryType target"
  "Input (withTimes fromRaw toRaw target) = (Input target)\<lparr>StartTime := Some fromRaw, EndTime := Some toRaw\<rparr>"
  by (simp_all add: withTimes_def)

lemma handleQuery_eq:
  "TimeRange tsdbReq = Some timeRange \<Longrightarrow> ParseInt e (FromRaw timeRange) = Inr fromRaw \<Longrightarrow>
   ParseInt e (ToRaw timeRange) = Inr toRaw \<Longrightarrow>
   handleQuery e w tsdbReq =
     (case decodeTargets e fromRaw toRaw (Queries tsdbReq) [] of
        Inl f \<Rightarrow> (w, Inl f)
      | Inr targets \<Rightarrow> fetchTargets e w targets \<lparr>Results = []\<rparr>)"
  by (simp add: handleQuery_def)

lemma handleQuery_InrD:
  assumes "handleQuery e w tsdbReq = (w1, Inr response)"
  shows "\<exists>timeRange fromRaw toRaw targets.
        TimeRange tsdbReq = Some timeRange \<and> ParseInt e (FromRaw timeRange) = Inr fromRaw \<and>
        ParseInt e (ToRaw timeRange) = Inr toRaw \<and>
        decodeTargets e fromRaw toRaw (Queries tsdbReq) [] = Inr targets \<and>
        fetchTargets e w targets \<lparr>Results = []\<rparr> = (w1, Inr response)"
proof -
  from assms obtain timeRange where tr: "TimeRange tsdbReq = Some timeRange"
    by (cases "TimeRange tsdbReq") (simp_all add: handleQuery_def)
  from assms tr obtain fromRaw where f: "ParseInt e (FromRaw timeRange) = Inr fromRaw"
    by (cases "ParseInt e (FromRaw timeRange)") (simp_all add: handleQuery_def)
  from assms tr f obtain toRaw where t: "ParseInt e (ToRaw timeRange) = Inr toRaw"
    by (cases "ParseInt e (ToRaw timeRange)") (simp_all add: handleQuery_def)
  note eq = handleQuery_eq [OF tr f t, of w]
  from assms eq obtain targets where d: "decodeTargets e fromRaw toRaw (Queries tsdbReq) [] = Inr targets"
    by (cases "decodeTargets e fromRaw toRaw (Queries tsdbReq) []") simp_all
  from assms eq d have "fetchTargets e w targets \<lparr>Results = []\<rparr> = (w1, Inr response)" by simp
  with tr f t d show ?thesis by blast
qed


lemma Query_bulk:
  assumes "bulkMode e tsdbReq"
  shows "Query e w tsdbReq =
     (case handleQuery e w tsdbReq of
        (w1, Inl (Err err)) \<Rightarrow> (w1, Inr \<lparr>Results = [QueryResult0\<lparr>Error := err\<rparr>]\<rparr>)
      | (w1, Inl (Panic p)) \<Rightarrow> (w1, Inl (Panic p))
      | (w1, Inr response) \<Rightarrow> (w1, Inr response))"
proof -
  from assms obtain query0 rest where q: "Queries tsdbReq = query0 # rest"
    by (cases "Queries tsdbReq") (simp_all add: bulkMode_def queryMode_def)
  with assms obtain modelJson where j: "NewJson e (ModelJson query0) = Inr modelJson"
    by (cases "NewJson e (ModelJson query0)") (simp_all add: bulkMode_def queryMode_def)
  from assms q j have "MustString (Get modelJson ''queryType'') \<noteq> ''metricFindQuery''"
    "MustString (Get modelJson ''queryType'') \<noteq> ''annotationQuery''"
    by (simp_all add: bulkMode_def queryMode_def)
  with q j show ?thesis by (simp add: Query_def)
qed


lemma Query_Cons:
  "Queries tsdbReq = query0 # rest \<Longrightarrow> NewJson e (ModelJson query0) = Inr modelJson \<Longrightarrow>
   Query e w tsdbReq =
     (if MustString (Get modelJson ''queryType'') = ''metricFindQuery'' then
        (case metricFindQuery e w modelJson of
           (w1, Inl (Err err)) \<Rightarrow>
             (w1, Inr \<lparr>Results = [QueryResult0\<lparr>RefId_res := ''metricFindQuery'', Error := err\<rparr>]\<rparr>)
         | (w1, Inl (Panic p)) \<Rightarrow> (w1, Inl (Panic p))
         | (w1, Inr response) \<Rightarrow> (w1, Inr response))
      else if MustString (Get modelJson ''queryType'') = ''annotationQuery'' then
        annotationQuery e w tsdbReq query0
      else
        (case handleQuery e w tsdbReq of
           (w1, Inl (Err err)) \<Rightarrow> (w1, Inr \<lparr>Results = [QueryResult0\<lparr>Error := err\<rparr>]\<rparr>)
         | (w1, Inl (Panic p)) \<Rightarrow> (w1, Inl (Panic p))
         | (w1, Inr response) \<Rightarrow> (w1, Inr response)))"
  by (simp add: Query_def)

lemma queryMode_SomeD:
  assumes "queryMode e tsdbReq = Some queryType"
  shows "\<exists>query0 rest modelJson. Queries tsdbReq = query0 # rest \<and>
           NewJson e (ModelJson query0) = Inr modelJson \<and> MustString (Get modelJson ''queryType'') = queryType"
proof -
  from assms obtain query0 rest where q: "Queries tsdbReq = query0 # rest"
    by (cases "Queries tsdbReq") (simp_all add: queryMode_def)
  with assms obtain modelJson where "NewJson e (ModelJson query0) = Inr modelJson"
    "MustString (Get modelJson ''queryType'') = queryType"
    by (cases "NewJson e (ModelJson query0)") (simp_all add: queryMode_def)
  with q show ?thesis by blast
qed

lemma Query_annotation:
  assumes "queryMode e tsdbReq = Some ''annotationQuery''" and "Queries tsdbReq = query0 # rest"
  shows "Query e w tsdbReq = annotationQuery e w tsdbReq query0"
proof -
  from queryMode_SomeD [OF assms(1)] assms(2)
  obtain modelJson where "NewJson e (ModelJson query0) = Inr modelJson"
    "MustString (Get modelJson ''queryType'') = ''annotationQuery''"
    by auto
  with assms(2) show ?thesis by (simp add: Query_Cons)
qed

lemma annotationQuery_decoded:
  assumes "Unmarshal e (ModelJson query0) = Inr target0" and "TimeRange tsdbReq = Some timeRange"
    and "ParseInt e (FromRaw timeRange) = Inr fromRaw" and "ParseInt e (ToRaw timeRange) = Inr toRaw"
  shows "annotationQuery e w tsdbReq query0 =
     (case GetClient e w (Region target0) of
        (w1, Inl f) \<Rightarrow> (w1, Inl f)
      | (w1, Inr svc) \<Rightarrow>
          (case FilterLogEvents e svc ((Input target0)\<lparr>StartTime := Some fromRaw, EndTime := Some toRaw\<rparr>) of
             (pages, Some err) \<Rightarrow> (w1, Inl (Err err))
           | (pages, None) \<Rightarrow>
               (case Marshal e \<lparr>Events = concat (map Events pages)\<rparr> of
                  Inl err \<Rightarrow> (w1, Inl (Err err))
                | Inr resultJson \<Rightarrow> (w1, Inr \<lparr>Results = [QueryResult0\<lparr>MetaJson := resultJson\<rparr>]\<rparr>))))"
proof -
  obtain w1 res where g: "GetClient e w (Region target0) = (w1, res)"
    by (cases "GetClient e w (Region target0)")
  show ?thesis
  proof (cases res)
    case (Inl f)
    with assms g show ?thesis by (simp add: annotationQuery_def)
  next
    case (Inr svc)
    obtain pages err where f: "FilterLogEvents e svc ((Input target0)\<lparr>StartTime := Some fromRaw, EndTime := Some toRaw\<rparr>) = (pages, err)"
      by (cases "FilterLogEvents e svc ((Input target0)\<lparr>StartTime := Some fromRaw, EndTime := Some toRaw\<rparr>)")
    with assms g Inr show ?thesis
      by (cases err) (simp_all add: annotationQuery_def FilterLogEventsPages_eventsPage)
  qed
qed

lemma annotationQuery_InrD:
  assumes "annotationQuery e w tsdbReq query0 = (w1, Inr response)"
  shows "\<exists>target0 timeRange fromRaw toRaw svc pages resultJson.
     Unmarshal e (ModelJson query0) = Inr target0 \<and> TimeRange tsdbReq = Some timeRange \<and>
     ParseInt e (FromRaw timeRange) = Inr fromRaw \<and> ParseInt e (ToRaw timeRange) = Inr toRaw \<and>
     GetClient e w (Region target0) = (w1, Inr svc) \<and>
     FilterLogEvents e svc ((Input target0)\<lparr>StartTime := Some fromRaw, EndTime := Some toRaw\<rparr>) = (pages, None) \<and>
     Marshal e \<lparr>Events = concat (map Events pages)\<rparr> = Inr resultJson \<and>
     response = \<lparr>Results = [\<lparr>Error = [], RefId_res = [], MetaJson = resultJson, Tables = []\<rparr>]\<rparr>"
proof -
  from assms obtain target0 where u: "Unmarshal e (ModelJson query0) = Inr target0"
    by (cases "Unmarshal e (ModelJson query0)") (simp_all add: annotationQuery_def)
  from assms u obtain timeRange where tr: "TimeRange tsdbReq = Some timeRange"
    by (cases "TimeRange tsdbReq") (simp_all add: annotationQuery_def)
  from assms u tr obtain fromRaw where f: "ParseInt e (FromRaw timeRange) = Inr fromRaw"
    by (cases "ParseInt e (FromRaw timeRange)") (simp_all add: annotationQuery_def)
  from assms u tr f obtain toRaw where t: "ParseInt e (ToRaw timeRange) = Inr toRaw"
    by (cases "ParseInt e (ToRaw timeRange)") (simp_all add: annotationQuery_def)
  note eq = annotationQuery_decoded [OF u tr f t, of w]
  obtain w2 res where g: "GetClient e w (Region target0) = (w2, res)"
    by (cases "GetClient e w (Region target0)")
  from assms eq g obtain svc where svc: "res = Inr svc"
    by (cases res) simp_all
  let ?input = "(Input target0)\<lparr>StartTime := Some fromRaw, EndTime := Some toRaw\<rparr>"
  obtain pages err where p: "FilterLogEvents e svc ?input = (pages, err)"
    by (cases "FilterLogEvents e svc ?input")
  from assms eq g svc p have err: "err = None"
    by (cases err) simp_all
  from assms eq g svc p err obtain resultJson where m: "Marshal e \<lparr>Events = concat (map Events pages)\<rparr> = Inr resultJson"
    by (cases "Marshal e \<lparr>Events = concat (map Events pages)\<rparr>") simp_all
  from assms eq g svc p err m have "w1 = w2" "response = \<lparr>Results = [QueryResult0\<lparr>MetaJson := resultJson\<rparr>]\<rparr>"
    by simp_all
  with u tr f t g svc p err m show ?thesis
    by (simp add: QueryResult0_def)
qed








lemma transformToTable_Nil:
  "transformToTable [] = \<lparr>Columns = [\<lparr>Name = ''text''\<rparr>, \<lparr>Name = ''value''\<rparr>], Rows = []\<rparr>"
  by (simp add: transformToTable_def)










subsection \<open>The short-slice sort\<close>

lemma Swap_props:
  "i < length xs \<Longrightarrow> j < length xs \<Longrightarrow> mset (Swap i j xs) = mset xs \<and> length (Swap i j xs) = length xs"
  by (simp add: Swap_def mset_swap)

lemma foldl_keeps:
  assumes "\<And>ys i. i \<in> set is \<Longrightarrow> length ys = length xs \<Longrightarrow>
            mset (step ys i) = mset ys \<and> length (step ys i) = length ys"
  shows "mset (foldl step xs is) = mset xs \<and> length (foldl step xs is) = length xs"
  using assms
proof (induction "is" arbitrary: xs rule: rev_induct)
  case Nil
  then show ?case by simp
next
  case (snoc i "is")
  have 1: "mset (foldl step xs is) = mset xs \<and> length (foldl step xs is) = length xs"
    by (rule snoc.IH) (simp add: snoc.prems)
  with snoc.prems [of i "foldl step xs is"] show ?case by simp
qed

lemma gapPass_props: "mset (gapPass lessf xs) = mset xs \<and> length (gapPass lessf xs) = length xs"
  unfolding gapPass_def
proof (rule foldl_keeps)
  fix ys :: "'a list" and i
  assume "i \<in> set [6..<length xs]" and "length ys = length xs"
  then have "i < length ys" "i - 6 < length ys" by auto
  then show "mset (if lessf (ys ! i) (ys ! (i - 6)) then Swap i (i - 6) ys else ys) = mset ys \<and>
         length (if lessf (ys ! i) (ys ! (i - 6)) then Swap i (i - 6) ys else ys) = length ys"
    by (simp add: Swap_props)
qed

lemma insertLeft_props:
  "j < length xs \<Longrightarrow> mset (insertLeft lessf j xs) = mset xs \<and> length (insertLeft lessf j xs) = length xs"
  by (induction j arbitrary: xs) (simp_all add: Swap_props)

lemma insertionSort_func_props:
  "mset (insertionSort_func lessf xs) = mset xs \<and> length (insertionSort_func lessf xs) = length xs"
  unfolding insertionSort_func_def
  by (rule foldl_keeps) (simp add: insertLeft_props)

lemma Slice_short_mset: "mset (Slice_short lessf xs) = mset xs"
  by (simp add: Slice_short_def insertionSort_func_props gapPass_props)

lemma insertLeft_append:
  "insertLeft lessf (length A) (A @ x # rest) = rev (insertBack lessf x (rev A)) @ rest"
proof (induction A arbitrary: rest rule: rev_induct)
  case Nil
  then show ?case by simp
next
  case (snoc y B)
  have nth: "(B @ y # x # rest) ! Suc (length B) = x" "(B @ y # x # rest) ! length B = y"
    by (simp_all add: nth_append)
  have sw: "Swap (Suc (length B)) (length B) (B @ y # x # rest) = B @ x # y # rest"
    by (simp add: Swap_def nth_append list_update_append)
  show ?case
    using snoc.IH [of "y # rest"] by (simp add: nth sw)
qed

lemma set_insertBack: "set (insertBack lessf x ys) = insert x (set ys)"
  by (induction ys) auto

lemma strictWeak_irrefl: "strictWeak lessf A \<Longrightarrow> a \<in> A \<Longrightarrow> \<not> lessf a a"
  unfolding strictWeak_def by blast

lemma strictWeak_trans:
  "strictWeak lessf A \<Longrightarrow> a \<in> A \<Longrightarrow> b \<in> A \<Longrightarrow> c \<in> A \<Longrightarrow> lessf a b \<Longrightarrow> lessf b c \<Longrightarrow> lessf a c"
  unfolding strictWeak_def by blast

lemma strictWeak_negtrans:
  "strictWeak lessf A \<Longrightarrow> a \<in> A \<Longrightarrow> b \<in> A \<Longrightarrow> c \<in> A \<Longrightarrow> \<not> lessf a b \<Longrightarrow> \<not> lessf b c \<Longrightarrow> \<not> lessf a c"
  unfolding strictWeak_def by blast

lemma strictWeak_subset: "strictWeak lessf A \<Longrightarrow> B \<subseteq> A \<Longrightarrow> strictWeak lessf B"
  unfolding strictWeak_def by blast

lemma sorted_insertBack:
  assumes "strictWeak lessf (insert x (set ys))" and "sorted_wrt (\<lambda>a b. \<not> lessf a b) ys"
  shows "sorted_wrt (\<lambda>a b. \<not> lessf a b) (insertBack lessf x ys)"
  using assms
proof (induction ys)
  case Nil
  then show ?case by simp
next
  case (Cons y ys)
  let ?A = "insert x (set (y # ys))"
  note sw = Cons.prems(1)
  have sub: "strictWeak lessf (insert x (set ys))"
    by (rule strictWeak_subset [OF sw]) auto
  from Cons.prems(2) have s: "sorted_wrt (\<lambda>a b. \<not> lessf a b) ys" and y: "\<forall>z \<in> set ys. \<not> lessf y z"
    by simp_all
  have mem: "x \<in> ?A" "y \<in> ?A" by simp_all
  show ?case
  proof (cases "lessf x y")
    case True
    have "\<not> lessf y x"
    proof
      assume "lessf y x"
      with True have "lessf x x" by (rule strictWeak_trans [OF sw mem(1) mem(2) mem(1)])
      with strictWeak_irrefl [OF sw mem(1)] show False by simp
    qed
    with True y Cons.IH [OF sub s] show ?thesis by (simp add: set_insertBack)
  next
    case False
    have "\<not> lessf x z" if "z \<in> set ys" for z
    proof -
      from that have z: "z \<in> ?A" by simp
      from y that have "\<not> lessf y z" by simp
      with False show ?thesis by (rule strictWeak_negtrans [OF sw mem(1) mem(2) z])
    qed
    with False Cons.prems(2) show ?thesis by simp
  qed
qed

lemma length_insertBack: "length (insertBack lessf x ys) = Suc (length ys)"
  by (induction ys) simp_all

lemma insertionSort_prefix:
  assumes "strictWeak lessf (set xs)"
  shows "k \<le> length xs \<Longrightarrow>
         sorted_wrt (\<lambda>a b. \<not> lessf b a) (take k (foldl (\<lambda>ys i. insertLeft lessf i ys) xs [1..<k])) \<and>
         mset (foldl (\<lambda>ys i. insertLeft lessf i ys) xs [1..<k]) = mset xs \<and>
         length (foldl (\<lambda>ys i. insertLeft lessf i ys) xs [1..<k]) = length xs"
proof (induction k)
  case 0
  then show ?case by simp
next
  case (Suc k)
  let ?step = "\<lambda>ys i. insertLeft lessf i ys"
  show ?case
  proof (cases k)
    case 0
    then show ?thesis by (cases xs) simp_all
  next
    case (Suc k')
    note kpos = this
    let ?ys = "foldl ?step xs [1..<k]"
    from Suc.prems Suc.IH have ih: "sorted_wrt (\<lambda>a b. \<not> lessf b a) (take k ?ys)"
      "mset ?ys = mset xs" "length ?ys = length xs"
      by simp_all
    from Suc.prems ih(3) have k: "k < length ?ys" by simp
    from kpos have upt: "[1..<Suc k] = [1..<k] @ [k]" by simp
    have split: "?ys = take k ?ys @ ?ys ! k # drop (Suc k) ?ys"
      using k by (rule id_take_nth_drop)
    have lenA: "length (take k ?ys) = k" using k by simp
    have "insertLeft lessf k ?ys = insertLeft lessf (length (take k ?ys)) (take k ?ys @ ?ys ! k # drop (Suc k) ?ys)"
      using split lenA by simp
    also have "\<dots> = rev (insertBack lessf (?ys ! k) (rev (take k ?ys))) @ drop (Suc k) ?ys"
      by (rule insertLeft_append)
    finally have eq: "insertLeft lessf k ?ys = rev (insertBack lessf (?ys ! k) (rev (take k ?ys))) @ drop (Suc k) ?ys" .
    have len: "length (rev (insertBack lessf (?ys ! k) (rev (take k ?ys)))) = Suc k"
      using lenA by (simp add: length_insertBack)
    have "set ?ys = set xs" using ih(2) by (rule mset_eq_setD)
    with assms have sw: "strictWeak lessf (set ?ys)" by simp
    have "insert (?ys ! k) (set (rev (take k ?ys))) \<subseteq> set ?ys"
      using k by (auto dest: in_set_takeD)
    with sw have sw': "strictWeak lessf (insert (?ys ! k) (set (rev (take k ?ys))))"
      by (rule strictWeak_subset)
    from ih(1) have "sorted_wrt (\<lambda>a b. \<not> lessf a b) (rev (take k ?ys))"
      by (simp add: sorted_wrt_rev)
    from sorted_insertBack [OF sw' this]
    have "sorted_wrt (\<lambda>a b. \<not> lessf b a) (rev (insertBack lessf (?ys ! k) (rev (take k ?ys))))"
      by (simp add: sorted_wrt_rev)
    moreover have "take (Suc k) (insertLeft lessf k ?ys) = rev (insertBack lessf (?ys ! k) (rev (take k ?ys)))"
      unfolding eq using len by simp
    moreover have "mset (insertLeft lessf k ?ys) = mset xs" "length (insertLeft lessf k ?ys) = length xs"
      using insertLeft_props [OF k, of lessf] ih by simp_all
    ultimately show ?thesis using kpos by (simp add: upt)
  qed
qed

lemma Slice_short_sorted:
  assumes "strictWeak lessf (set xs)"
  shows "sorted_wrt (\<lambda>a b. \<not> lessf b a) (Slice_short lessf xs)"
proof (cases "1 < length xs")
  case False
  then show ?thesis
    by (cases xs) (simp_all add: Slice_short_def)
next
  case True
  let ?zs = "gapPass lessf xs"
  have "set ?zs = set xs" using gapPass_props [of lessf xs] by (metis mset_eq_setD)
  with assms have sw: "strictWeak lessf (set ?zs)" by simp
  let ?r = "foldl (\<lambda>ys i. insertLeft lessf i ys) ?zs [1..<length ?zs]"
  note P = insertionSort_prefix [OF sw, of "length ?zs", OF order_refl]
  from P have s: "sorted_wrt (\<lambda>a b. \<not> lessf b a) (take (length ?zs) ?r)" by (rule conjunct1)
  from P have l: "length ?r = length ?zs" by (elim conjE)
  from l have "take (length ?zs) ?r = ?r" by simp
  with s have "sorted_wrt (\<lambda>a b. \<not> lessf b a) (insertionSort_func lessf ?zs)"
    by (simp only: insertionSort_func_def)
  with True show ?thesis by (simp add: Slice_short_def)
qed

lemma Slice_sorts_Slice_short: "Slice_sorts Slice_short"
  by (simp add: Slice_sorts_def Slice_short_mset Slice_short_sorted)

lemma groupSuggestions_eq:
  "\<forall>g \<in> set gs. LogGroupName g \<noteq> None \<Longrightarrow>
   groupSuggestions gs data =
     Inr (data @ map (\<lambda>g. \<lparr>Text = the (LogGroupName g), Value = the (LogGroupName g)\<rparr>) gs)"
  by (induction gs arbitrary: data) auto

lemma foldl_suggestRow:
  "foldl (\<lambda>rows r. rows @ [suggestRow r]) acc data = acc @ map suggestRow data"
  by (induction data arbitrary: acc) simp_all

lemma transformToTable_eq:
  "transformToTable data = \<lparr>Columns = [\<lparr>Name = ''text''\<rparr>, \<lparr>Name = ''value''\<rparr>], Rows = map suggestRow data\<rparr>"
  by (simp add: transformToTable_def foldl_suggestRow)

lemma DescribeLogGroupsPages_groupsPage:
  "DescribeLogGroups e svc input = (pages, err) \<Longrightarrow>
   DescribeLogGroupsPages e svc input groupsPage \<lparr>LogGroups = []\<rparr> =
     (\<lparr>LogGroups = concat (map LogGroups pages)\<rparr>, err)"
  by (simp add: DescribeLogGroupsPages_def paginate_groupsPage)

lemma strictWeak_lessGroups:
  assumes "\<forall>g \<in> set gs. CreationTime g \<noteq> None"
  shows "strictWeak lessGroups (set gs)"
  unfolding strictWeak_def
proof (intro ballI)
  fix a b c
  assume "a \<in> set gs" "b \<in> set gs" "c \<in> set gs"
  with assms have n: "CreationTime a \<noteq> None" "CreationTime b \<noteq> None" "CreationTime c \<noteq> None"
    by blast+
  from n(1) obtain ta where "CreationTime a = Some ta" by (cases "CreationTime a") auto
  moreover from n(2) obtain tb where "CreationTime b = Some tb" by (cases "CreationTime b") auto
  moreover from n(3) obtain tc where "CreationTime c = Some tc" by (cases "CreationTime c") auto
  ultimately show "\<not> lessGroups a a \<and> (lessGroups a b \<and> lessGroups b c \<longrightarrow> lessGroups a c) \<and>
       (\<not> lessGroups a b \<and> \<not> lessGroups b c \<longrightarrow> \<not> lessGroups a c)"
    by (auto simp: lessGroups_def word_sless_alt)
qed

lemma sorted_lessGroups:
  assumes "\<forall>g \<in> set gs. CreationTime g \<noteq> None" and "sorted_wrt (\<lambda>a b. \<not> lessGroups b a) gs"
  shows "sorted_wrt (\<lambda>g h. sint (the (CreationTime h)) \<le> sint (the (CreationTime g))) gs"
proof (rule sorted_wrt_mono_rel [OF _ assms(2)])
  fix a b
  assume ab: "a \<in> set gs" "b \<in> set gs" and nl: "\<not> lessGroups b a"
  from ab assms(1) have n: "CreationTime a \<noteq> None" "CreationTime b \<noteq> None" by blast+
  from n(1) obtain ta where "CreationTime a = Some ta" by (cases "CreationTime a") auto
  moreover from n(2) obtain tb where "CreationTime b = Some tb" by (cases "CreationTime b") auto
  ultimately show "sint (the (CreationTime b)) \<le> sint (the (CreationTime a))"
    using nl by (auto simp: lessGroups_def word_sless_alt)
qed


subsection \<open>Milliseconds, seconds and the formatted time\<close>

lemma sint64_range: "- 9223372036854775808 \<le> sint (w :: int64) \<and> sint w < 9223372036854775808"
  using sint_ge [of w] sint_lt [of w] by simp

lemma sint64_of_int:
  "- 9223372036854775808 \<le> x \<Longrightarrow> x < 9223372036854775808 \<Longrightarrow> sint (word_of_int x :: int64) = x"
  by (simp add: sint_sbintrunc' signed_take_bit_int_eq_self)

lemma sdiv_1000:
  fixes k :: int
  shows "k sdiv 1000 = (if 0 \<le> k \<or> k mod 1000 = 0 then k div 1000 else k div 1000 + 1)"
    and "k smod 1000 = (if 0 \<le> k \<or> k mod 1000 = 0 then k mod 1000 else k mod 1000 - 1000)"
  by (auto simp: signed_divide_int_eq_divide_int signed_modulo_int_eq_modulo_int sgn_if dvd_eq_mod_eq_0)

lemma sdiv_small:
  fixes x :: int
  shows "- 1000000000 < x \<Longrightarrow> x < 1000000000 \<Longrightarrow> x sdiv 1000000000 = 0"
  by (auto simp: signed_divide_int_def sgn_if)


lemma time_Unix_millis:
  "time_Unix (quo64 ms 1000) (rem64 ms 1000 * 1000 * 1000) =
     (word_of_int (sint ms div 1000), word_of_int (sint ms mod 1000 * 1000000))"
proof -
  define k where "k = sint ms"
  define r where "r = k smod 1000"
  define nsec :: int64 where "nsec = word_of_int (r * 1000000)"
  have "0 \<le> k mod 1000" "k mod 1000 < 1000" by simp_all
  then have r: "- 1000 < r" "r < 1000"
    by (auto simp: r_def sdiv_1000(2))
  have nsec: "rem64 ms 1000 * 1000 * 1000 = nsec"
    by (simp add: rem64_def r_def k_def nsec_def)
  from r have sn: "sint nsec = r * 1000000"
    unfolding nsec_def by (intro sint64_of_int) simp_all
  have sec: "quo64 ms 1000 = word_of_int (k sdiv 1000)"
    by (simp add: quo64_def k_def)
  from r have n0: "quo64 nsec 1000000000 = 0"
    by (simp add: quo64_def sn sdiv_small)
  show ?thesis
  proof (cases "r < 0")
    case False
    with r have "\<not> nsec <s 0" "\<not> 1000000000 <=s nsec"
      by (simp_all add: word_sless_alt word_sle_eq sn)
    then have "time_Unix (quo64 ms 1000) (rem64 ms 1000 * 1000 * 1000) = (word_of_int (k sdiv 1000), nsec)"
      unfolding nsec sec by (simp add: time_Unix_def)
    moreover from False have "k sdiv 1000 = k div 1000" "r = k mod 1000"
      by (auto simp: r_def sdiv_1000 split: if_splits)
    ultimately show ?thesis by (simp add: k_def nsec_def)
  next
    case True
    with r have lt: "nsec <s 0"
      by (simp add: word_sless_alt sn)
    then have "time_Unix (quo64 ms 1000) (rem64 ms 1000 * 1000 * 1000) =
        (word_of_int (k sdiv 1000) - 1, nsec + 1000000000)"
      unfolding nsec sec by (simp add: time_Unix_def n0 Let_def)
    moreover from True have "k sdiv 1000 = k div 1000 + 1" "r = k mod 1000 - 1000"
      by (auto simp: r_def sdiv_1000 split: if_splits)
    ultimately show ?thesis by (simp add: k_def nsec_def algebra_simps)
  qed
qed

lemma Format_RFC3339_seconds:
  "fst t = fst t' \<Longrightarrow> lookup (sint (fst t)) = lookup' (sint (fst t)) \<Longrightarrow>
   Format_RFC3339 lookup t = Format_RFC3339 lookup' t'"
  by (simp add: Format_RFC3339_def)

lemma formatMillis_floor:
  "formatMillis e ms =
     Format_RFC3339 (Local e) (word_of_int (sint ms div 1000), word_of_int (sint ms mod 1000 * 1000000))"
  by (simp only: formatMillis_def time_Unix_millis)

lemma formatMillis_same_second:
  assumes "sint ms div 1000 = sint ms' div 1000"
  shows "formatMillis e ms = formatMillis e ms'"
  unfolding formatMillis_floor by (rule Format_RFC3339_seconds) (simp_all add: assms)

lemma formatMillis_1700000000123:
  assumes "Local e 1700000000 = 0"
  shows "formatMillis e 1700000000123 = ''2023-11-14T22:13:20Z''"
proof -
  have "Format_RFC3339 (Local e) (1700000000, 123000000) = Format_RFC3339 (\<lambda>unix. 0) (1700000000, 123000000)"
    by (rule Format_RFC3339_seconds) (simp_all add: assms)
  also have "\<dots> = ''2023-11-14T22:13:20Z''" by code_simp
  finally show ?thesis by (simp add: formatMillis_floor)
qed

subsection \<open>The example environment\<close>

lemma models_distinct:
  "distinct [modelA, modelB, modelC, modelD, modelN, modelG, modelU]"
  by (simp add: modelA_def modelB_def modelC_def modelD_def modelN_def modelG_def modelU_def)

lemma Unmarshal_env0:
  "Unmarshal env0 modelA = Inr \<lparr>RefId = ''A'', QueryType = [], Format = ''table'', Region = ''us-east-1'', Input = input0 ''/aws/app''\<rparr>"
  "Unmarshal env0 modelB = Inr \<lparr>RefId = ''B'', QueryType = [], Format = ''table'', Region = ''eu-west-1'', Input = input0 ''/aws/app''\<rparr>"
  "Unmarshal env0 modelC = Inr \<lparr>RefId = ''C'', QueryType = [], Format = ''timeserie'', Region = ''us-east-1'', Input = input0 ''/aws/gone''\<rparr>"
  "Unmarshal env0 modelD = Inr \<lparr>RefId = ''D'', QueryType = [], Format = ''timeserie'', Region = ''eu-west-1'', Input = input0 ''/aws/app''\<rparr>"
  "Unmarshal env0 modelN = Inr \<lparr>RefId = [], QueryType = ''annotationQuery'', Format = [], Region = ''us-east-1'', Input = input0 ''/aws/app''\<rparr>"
  using models_distinct by (auto simp: env0_def fromTable_def targets0_def)

lemma queryType_env0:
  "queryMode env0 (request (modelA # ms)) = Some []"
  "queryMode env0 (request (modelB # ms)) = Some []"
  "queryMode env0 (request (modelC # ms)) = Some []"
  "queryMode env0 (request (modelD # ms)) = Some []"
  "queryMode env0 (request (modelN # ms)) = Some ''annotationQuery''"
  "queryMode env0 (request (modelG # ms)) = Some ''metricFindQuery''"
  "queryMode env0 (request (modelU # ms)) = Some ''metricFindQuery''"
  using models_distinct by (auto simp: queryMode_def request_def env0_def fromTable_def documents_def)

lemma ParseInt_env0:
  "ParseInt env0 (FromRaw timeRange0) = Inr 1699999000000"
  "ParseInt env0 (ToRaw timeRange0) = Inr 1700000003000"
  by (simp_all add: env0_def fromTable_def timeRange0_def)

lemma fetchSucceeds_env0:
  "LogGroupName_in input \<noteq> Some ''/aws/gone'' \<Longrightarrow> fetchSucceeds env0 svc input"
  by (simp add: fetchSucceeds_def env0_def pages0_def event_def completeEvent_def)

lemma clientAvailable_env0: "clientAvailable env0 w region"
  by (simp add: clientAvailable_def env0_def split: option.splits)

lemma GetClient_env0:
  "GetClient env0 world0 ''us-east-1'' = (world1, Inr client0)"
  by (simp add: GetClient_def Let_def env0_def world0_def world1_def client0_def)

lemma FilterLogEvents_env0:
  "LogGroupName_in input \<noteq> Some ''/aws/gone'' \<Longrightarrow> FilterLogEvents env0 svc input = (pages0, None)"
  "LogGroupName_in input = Some ''/aws/gone'' \<Longrightarrow> FilterLogEvents env0 svc input = ([], Some ''ResourceNotFoundException'')"
  by (simp_all add: env0_def)

lemma env_nosession_fields:
  "NewJson env_nosession = NewJson env0" "Unmarshal env_nosession = Unmarshal env0"
  "ParseInt env_nosession = ParseInt env0" "NewSession env_nosession region = Inl ''SharedConfigLoadError''"
  by (simp_all add: env_nosession_def)

lemma queryMode_env_nosession: "queryMode env_nosession tsdbReq = queryMode env0 tsdbReq"
  by (simp add: queryMode_def env_nosession_fields split: list.splits)

lemma GetClient_env_nosession:
  "GetClient env_nosession world0 ''us-east-1'' = (world_failed, Inl (Err ''SharedConfigLoadError''))"
  by (simp add: GetClient_def Let_def env_nosession_fields world0_def world_failed_def)

lemma NewJson_env0:
  "NewJson env0 modelU = Inr (JObject [(''queryType'', JString ''metricFindQuery''), (''subtype'', JString ''metric_names''),
                        (''region'', JString ''us-east-1'')])"
  "NewJson env0 modelG = Inr (JObject [(''queryType'', JString ''metricFindQuery''), (''subtype'', JString ''log_group_names''),
                        (''region'', JString ''us-east-1''), (''prefix'', JString ''/aws'')])"
  using models_distinct by (auto simp: env0_def fromTable_def documents_def)

lemma handleQuery_env0_C:
  "handleQuery env0 world0 (request [modelC]) = (world1, Inl (Err ''ResourceNotFoundException''))"
proof -
  have tr: "TimeRange (request [modelC]) = Some timeRange0" by (simp add: request_def)
  show ?thesis
    unfolding handleQuery_eq [OF tr ParseInt_env0]
    by (simp add: request_def Unmarshal_env0 GetClient_env0 FilterLogEventsPages_eventsPage
          FilterLogEvents_env0 input0_def)
qed

lemma Slice_short_groupPages0:
  "Slice_short lessGroups (concat (map LogGroups groupPages0)) =
     [logGroup ''/aws/g'' 2000, logGroup ''/aws/b'' 1000, logGroup ''/aws/c'' 1000, logGroup ''/aws/d'' 1000,
      logGroup ''/aws/e'' 1000, logGroup ''/aws/f'' 1000, logGroup ''/aws/a'' 1000]"
  by code_simp

lemma Query_env0_G:
  "Query env0 world0 (request [modelG]) =
     (world1, Inr \<lparr>Results = [\<lparr>Error = [], RefId_res = ''metricFindQuery'', MetaJson = [],
        Tables = [\<lparr>Columns = [\<lparr>Name = ''text''\<rparr>, \<lparr>Name = ''value''\<rparr>],
                   Rows = map (\<lambda>name. \<lparr>Values = [stringValue name, stringValue name]\<rparr>)
                     [''/aws/g'', ''/aws/b'', ''/aws/c'', ''/aws/d'', ''/aws/e'', ''/aws/f'', ''/aws/a'']\<rparr>]\<rparr>]\<rparr>)"
proof -
  let ?doc = "JObject [(''queryType'', JString ''metricFindQuery''), (''subtype'', JString ''log_group_names''),
                        (''region'', JString ''us-east-1''), (''prefix'', JString ''/aws'')]"
  have q: "Queries (request [modelG]) = \<lparr>ModelJson = modelG\<rparr> # []" by (simp add: request_def)
  have j: "NewJson env0 (ModelJson \<lparr>ModelJson = modelG\<rparr>) = Inr ?doc" by (simp add: NewJson_env0)
  have d: "DescribeLogGroups env0 svc input = (groupPages0, None)" for svc input
    by (simp add: env0_def)
  have sl: "Slice_groups env0 = Slice_short" by (simp add: env0_def)
  have c: "\<not> list_ex (\<lambda>g. CreationTime g = None) (concat (map LogGroups groupPages0))"
    by (simp add: groupPages0_def logGroup_def)
  have "log_group_names env0 client0 ?doc =
      Inr (map (\<lambda>name. \<lparr>Text = name, Value = name\<rparr>)
            [''/aws/g'', ''/aws/b'', ''/aws/c'', ''/aws/d'', ''/aws/e'', ''/aws/f'', ''/aws/a''])"
    using c by (simp add: log_group_names_def DescribeLogGroupsPages_groupsPage [OF d] sl Slice_short_groupPages0 logGroup_def)
  then have "metricFindQuery env0 world0 ?doc =
      (world1, Inr \<lparr>Results = [QueryResult0\<lparr>RefId_res := ''metricFindQuery'',
          Tables := [transformToTable (map (\<lambda>name. \<lparr>Text = name, Value = name\<rparr>)
            [''/aws/g'', ''/aws/b'', ''/aws/c'', ''/aws/d'', ''/aws/e'', ''/aws/f'', ''/aws/a''])]\<rparr>]\<rparr>)"
    by (simp add: metricFindQuery_def GetClient_env0)
  then show ?thesis
    by (simp add: Query_Cons [OF q j] QueryResult0_def transformToTable_eq suggestRow_def)
qed






subsection \<open>An empty request\<close>

text \<open>
  C10. \<^verbatim>\<open>Query\<close> reads \<^verbatim>\<open>tsdbReq.Queries[0]\<close> before it looks at the mode: on a request
  with no query the index is out of range, so the call panics; it returns neither a
  response nor an error.
\<close>

theorem Query_no_queries:
  "Queries tsdbReq = [] \<Longrightarrow> Query e w tsdbReq = (w, Inl (Panic IndexOutOfRange))"
  by (simp add: Query_def)

theorem Query_no_queries_witness:
  "Queries (request []) = [] \<and> Query env0 world0 (request []) = (world0, Inl (Panic IndexOutOfRange))"
  using Query_no_queries [of "request []" env0 world0] by (simp add: request_def)

subsection \<open>The table of a log search\<close>

text \<open>
  C3. Whatever the fetched records, a result that \<^verbatim>\<open>parseTableResponse\<close> returns holds one
  table; its columns are Timestamp, IngestionTime, LogStreamName, Message, in this order;
  it has one row per record, in the order of the records; the row of a record holds the
  record's two formatted times, its stream name and its message, in the order of the
  columns, as many values as there are columns, each of kind string. The function returns
  a result whenever every record has the four fields (it panics otherwise).
\<close>

theorem parseTableResponse_table:
  "(list_all completeEvent (Events resp) \<longrightarrow> (\<exists>r. parseTableResponse e resp refId = Inr r)) \<and>
   (\<forall>r. parseTableResponse e resp refId = Inr r \<longrightarrow>
      (\<exists>table. Tables r = [table] \<and>
         map Name (Columns table) = [''Timestamp'', ''IngestionTime'', ''LogStreamName'', ''Message''] \<and>
         length (Rows table) = length (Events resp) \<and>
         (\<forall>i < length (Events resp).
            \<exists>ts it stream msg.
              Timestamp (Events resp ! i) = Some ts \<and> IngestionTime (Events resp ! i) = Some it \<and>
              LogStreamName (Events resp ! i) = Some stream \<and> Message (Events resp ! i) = Some msg \<and>
              map StringValue (Values (Rows table ! i)) = [formatMillis e ts, formatMillis e it, stream, msg]) \<and>
         (\<forall>row \<in> set (Rows table).
            length (Values row) = length (Columns table) \<and>
            (\<forall>v \<in> set (Values row). Kind v = RowValue_TYPE_STRING))))"
proof -
  have complete: "\<exists>ts it stream msg.
      Timestamp ev = Some ts \<and> IngestionTime ev = Some it \<and> LogStreamName ev = Some stream \<and>
      Message ev = Some msg \<and>
      map StringValue (Values (rowOf e ev)) = [formatMillis e ts, formatMillis e it, stream, msg]"
    if "completeEvent ev" for ev
    using that by (auto simp: completeEvent_def rowOf_def stringValue_def)
  have kinds: "length (Values (rowOf e ev)) = 4 \<and> (\<forall>v \<in> set (Values (rowOf e ev)). Kind v = RowValue_TYPE_STRING)" for ev
    by (simp add: rowOf_def stringValue_def)
  show ?thesis
  proof (cases "list_all completeEvent (Events resp)")
    case False
    then show ?thesis by (simp add: parseTableResponse_eq)
  next
    case True
    then have "\<forall>i < length (Events resp). completeEvent (Events resp ! i)"
      by (simp add: list_all_length)
    with True show ?thesis
      using complete kinds by (simp add: parseTableResponse_eq)
  qed
qed

theorem parseTableResponse_table_witness:
  "list_all completeEvent (Events \<lparr>Events = concat (map Events pages0)\<rparr>) \<and>
   (\<exists>r table. parseTableResponse env0 \<lparr>Events = concat (map Events pages0)\<rparr> ''A'' = Inr r \<and>
      Tables r = [table] \<and>
      map Name (Columns table) = [''Timestamp'', ''IngestionTime'', ''LogStreamName'', ''Message''] \<and>
      length (Rows table) = 3 \<and>
      map StringValue (Values (Rows table ! 0)) =
        [''2023-11-14T22:13:20Z'', ''2023-11-14T22:13:20Z'', ''web-1'', ''GET /''])"
proof -
  let ?resp = "\<lparr>Events = concat (map Events pages0)\<rparr>"
  have c: "list_all completeEvent (Events ?resp)"
    by (simp add: pages0_def event_def completeEvent_def)
  have t: "Timestamp (Events ?resp ! 0) = Some 1700000000123" "IngestionTime (Events ?resp ! 0) = Some 1700000000456"
      "LogStreamName (Events ?resp ! 0) = Some ''web-1''" "Message (Events ?resp ! 0) = Some ''GET /''"
      "length (Events ?resp) = 3"
    by (simp_all add: pages0_def event_def)
  have f1: "formatMillis env0 1700000000123 = ''2023-11-14T22:13:20Z''"
    by code_simp
  have f2: "formatMillis env0 1700000000456 = ''2023-11-14T22:13:20Z''"
    by code_simp
  note T = parseTableResponse_table [of ?resp env0 "''A''"]
  from T [THEN conjunct1] c obtain r where r0: "parseTableResponse env0 ?resp ''A'' = Inr r"
    by blast
  from T [THEN conjunct2, rule_format, OF r0]
  obtain table where r: "Tables r = [table]"
     "map Name (Columns table) = [''Timestamp'', ''IngestionTime'', ''LogStreamName'', ''Message'']"
     "length (Rows table) = length (Events ?resp)"
     "\<forall>i < length (Events ?resp).
            \<exists>ts it stream msg.
              Timestamp (Events ?resp ! i) = Some ts \<and> IngestionTime (Events ?resp ! i) = Some it \<and>
              LogStreamName (Events ?resp ! i) = Some stream \<and> Message (Events ?resp ! i) = Some msg \<and>
              map StringValue (Values (Rows table ! i)) = [formatMillis env0 ts, formatMillis env0 it, stream, msg]"
    by (elim exE conjE) (rule that, assumption+)
  from r(4) t have "map StringValue (Values (Rows table ! 0)) = [formatMillis env0 1700000000123, formatMillis env0 1700000000456, ''web-1'', ''GET /'']"
    by force
  with r0 r t c f1 f2 show ?thesis by auto
qed

subsection \<open>One client per region\<close>

text \<open>
  C6. A call of \<^verbatim>\<open>GetClient\<close> that returns a client, repeated for the same region in the
  world it left, returns the same client and leaves the world as it is: no session is
  requested. A client is made only by a call for a region that has none, which requests
  one session and enters the client; a client once entered stays, the same, through every
  later call of \<^verbatim>\<open>GetClient\<close> and of \<^verbatim>\<open>Query\<close>. The map holds at most one client for a
  region by its type; beyond that, in every world reached from the initial one, a region
  has a client only if exactly one session was requested for it, and none otherwise.
\<close>

theorem GetClient_registry:
  "(\<forall>w1 client. GetClient e w region = (w1, Inr client) \<longrightarrow> GetClient e w1 region = (w1, Inr client)) \<and>
   (\<forall>w1 client. clientCache w region = None \<and> GetClient e w region = (w1, Inr client) \<longrightarrow>
      NewSession_calls w1 = region # NewSession_calls w \<and> clientCache w1 = (clientCache w)(region \<mapsto> client)) \<and>
   (\<forall>r client. clientCache w r = Some client \<longrightarrow>
      clientCache (fst (GetClient e w region)) r = Some client \<and>
      clientCache (fst (Query e w tsdbReq)) r = Some client) \<and>
   (registry_ok e w \<longrightarrow> registry_ok e (fst (GetClient e w region)) \<and> registry_ok e (fst (Query e w tsdbReq))) \<and>
   registry_ok e world0"
proof (intro conjI allI impI)
  fix w1 client
  assume "GetClient e w region = (w1, Inr client)"
  then show "GetClient e w1 region = (w1, Inr client)" by (rule GetClient_again)
next
  fix w1 client
  assume "clientCache w region = None \<and> GetClient e w region = (w1, Inr client)"
  then show "NewSession_calls w1 = region # NewSession_calls w"
    and "clientCache w1 = (clientCache w)(region \<mapsto> client)"
    using GetClient_first [of w region e w1 client] by simp_all
next
  fix r client
  assume c: "clientCache w r = Some client"
  then show "clientCache (fst (GetClient e w region)) r = Some client" by (rule GetClient_keeps)
  show "clientCache (fst (Query e w tsdbReq)) r = Some client"
  proof (rule Query_keeps [where P = "\<lambda>w. clientCache w r = Some client"])
    fix w' :: world and region'
    assume "clientCache w' r = Some client"
    then show "clientCache (fst (GetClient e w' region')) r = Some client" by (rule GetClient_keeps)
  next
    show "clientCache w r = Some client" by (fact c)
  qed
next
  assume ok: "registry_ok e w"
  then show "registry_ok e (fst (GetClient e w region))" by (rule GetClient_registry_ok)
  show "registry_ok e (fst (Query e w tsdbReq))"
  proof (rule Query_keeps [where P = "registry_ok e"])
    fix w' :: world and region'
    assume "registry_ok e w'"
    then show "registry_ok e (fst (GetClient e w' region'))" by (rule GetClient_registry_ok)
  next
    show "registry_ok e w" by (fact ok)
  qed
next
  show "registry_ok e world0" by (rule registry_ok_world0)
qed

theorem GetClient_registry_witness:
  "GetClient env0 world0 ''us-east-1'' = (world1, Inr client0) \<and>
   GetClient env0 world1 ''us-east-1'' = (world1, Inr client0) \<and>
   clientCache world0 ''us-east-1'' = None \<and>
   NewSession_calls world1 = [''us-east-1''] \<and>
   clientCache world1 ''us-east-1'' = Some client0 \<and>
   clientCache (fst (GetClient env0 world1 ''eu-west-1'')) ''us-east-1'' = Some client0 \<and>
   clientCache (fst (Query env0 world1 (request [modelB]))) ''us-east-1'' = Some client0 \<and>
   registry_ok env0 world0 \<and>
   registry_ok env0 (fst (Query env0 world0 (request [modelA, modelB])))"
proof -
  note T = GetClient_registry [of env0 world0 "''us-east-1''" "request [modelA, modelB]"]
  note T1 = GetClient_registry [of env0 world1 "''eu-west-1''" "request [modelB]"]
  have g: "GetClient env0 world0 ''us-east-1'' = (world1, Inr client0)"
    by (simp add: GetClient_def Let_def env0_def world0_def world1_def client0_def)
  have c: "clientCache world1 ''us-east-1'' = Some client0" "clientCache world0 ''us-east-1'' = None"
    by (simp_all add: world1_def world0_def)
  from T g have "GetClient env0 world1 ''us-east-1'' = (world1, Inr client0)" by blast
  moreover from T have "registry_ok env0 world0" "registry_ok env0 (fst (Query env0 world0 (request [modelA, modelB])))"
    by blast+
  moreover from T1 c have "clientCache (fst (GetClient env0 world1 ''eu-west-1'')) ''us-east-1'' = Some client0"
    "clientCache (fst (Query env0 world1 (request [modelB]))) ''us-east-1'' = Some client0"
    by blast+
  moreover have "NewSession_calls world1 = [''us-east-1'']" by (simp add: world1_def)
  ultimately show ?thesis using g c by simp
qed

subsection \<open>One result per table target\<close>

text \<open>
  C1. Take a request every query of which, where its model decodes, declares the format
  \<^verbatim>\<open>table\<close>. A response that \<^verbatim>\<open>handleQuery\<close> returns for it has one result per query,
  in the order of the queries; the result at a position carries the reference id of the
  target decoded from the query at that position, no error, and one table; and in bulk
  mode \<^verbatim>\<open>Query\<close> returns that response. \<^verbatim>\<open>handleQuery\<close> does return a response when the
  time range parses, every model decodes, a client can be had for every target's region
  and every target's search succeeds with complete records.
\<close>

theorem handleQuery_table_results:
  assumes "\<forall>query \<in> set (Queries tsdbReq). \<forall>target.
             Unmarshal e (ModelJson query) = Inr target \<longrightarrow> Format target = ''table''"
  shows
    "(\<forall>w1 response. handleQuery e w tsdbReq = (w1, Inr response) \<longrightarrow>
        length (Results response) = length (Queries tsdbReq) \<and>
        (\<forall>i < length (Queries tsdbReq).
           \<exists>target. Unmarshal e (ModelJson (Queries tsdbReq ! i)) = Inr target \<and>
             RefId_res (Results response ! i) = RefId target \<and>
             Error (Results response ! i) = [] \<and>
             (\<exists>table. Tables (Results response ! i) = [table])) \<and>
        (bulkMode e tsdbReq \<longrightarrow> Query e w tsdbReq = (w1, Inr response))) \<and>
     ((\<exists>timeRange fromRaw toRaw.
         TimeRange tsdbReq = Some timeRange \<and> ParseInt e (FromRaw timeRange) = Inr fromRaw \<and>
         ParseInt e (ToRaw timeRange) = Inr toRaw \<and>
         (\<forall>query \<in> set (Queries tsdbReq).
            \<exists>target. Unmarshal e (ModelJson query) = Inr target \<and>
              clientAvailable e w (Region target) \<and>
              (\<forall>svc. fetchSucceeds e svc (Input (withTimes fromRaw toRaw target))))) \<longrightarrow>
      (\<exists>w1 response. handleQuery e w tsdbReq = (w1, Inr response)))"
proof (intro conjI allI impI)
  fix w1 response
  assume h: "handleQuery e w tsdbReq = (w1, Inr response)"
  from handleQuery_InrD [OF h]
  obtain timeRange fromRaw toRaw targets where
    "TimeRange tsdbReq = Some timeRange" and
    d: "decodeTargets e fromRaw toRaw (Queries tsdbReq) [] = Inr targets" and
    f: "fetchTargets e w targets \<lparr>Results = []\<rparr> = (w1, Inr response)"
    by blast
  from d obtain ts where ts: "map (\<lambda>query. Unmarshal e (ModelJson query)) (Queries tsdbReq) = map Inr ts"
    and targets: "targets = map (withTimes fromRaw toRaw) ts"
    by (auto simp: decodeTargets_Inr)
  from ts have len: "length ts = length (Queries tsdbReq)"
    by (metis length_map)
  have nth: "Unmarshal e (ModelJson (Queries tsdbReq ! i)) = Inr (ts ! i)" if "i < length (Queries tsdbReq)" for i
    using that ts len by (metis nth_map)
  have "\<forall>target \<in> set targets. Format target = ''table''"
  proof
    fix target
    assume "target \<in> set targets"
    with targets obtain i where i: "i < length ts" "target = withTimes fromRaw toRaw (ts ! i)"
      by (auto simp: in_set_conv_nth)
    with len have m: "Queries tsdbReq ! i \<in> set (Queries tsdbReq)" by simp
    from i len nth [of i] have "Unmarshal e (ModelJson (Queries tsdbReq ! i)) = Inr (ts ! i)" by simp
    with assms m have "Format (ts ! i) = ''table''" by blast
    with i show "Format target = ''table''" by simp
  qed
  from fetchTargets_table [OF f this]
  obtain rs where rs: "Results response = rs" "length rs = length targets"
    "\<forall>i < length targets. RefId_res (rs ! i) = RefId (targets ! i) \<and> Error (rs ! i) = [] \<and>
              (\<exists>table. Tables (rs ! i) = [table])"
    by auto
  from rs targets len show "length (Results response) = length (Queries tsdbReq)" by simp
  show "\<exists>target. Unmarshal e (ModelJson (Queries tsdbReq ! i)) = Inr target \<and>
             RefId_res (Results response ! i) = RefId target \<and>
             Error (Results response ! i) = [] \<and>
             (\<exists>table. Tables (Results response ! i) = [table])" if "i < length (Queries tsdbReq)" for i
    using that rs targets len nth [of i] by (intro exI [of _ "ts ! i"]) simp
  show "Query e w tsdbReq = (w1, Inr response)" if "bulkMode e tsdbReq"
    using Query_bulk [OF that, of w] h by simp
next
  assume "\<exists>timeRange fromRaw toRaw.
         TimeRange tsdbReq = Some timeRange \<and> ParseInt e (FromRaw timeRange) = Inr fromRaw \<and>
         ParseInt e (ToRaw timeRange) = Inr toRaw \<and>
         (\<forall>query \<in> set (Queries tsdbReq).
            \<exists>target. Unmarshal e (ModelJson query) = Inr target \<and>
              clientAvailable e w (Region target) \<and>
              (\<forall>svc. fetchSucceeds e svc (Input (withTimes fromRaw toRaw target))))"
  then obtain timeRange fromRaw toRaw where tr: "TimeRange tsdbReq = Some timeRange"
    "ParseInt e (FromRaw timeRange) = Inr fromRaw" "ParseInt e (ToRaw timeRange) = Inr toRaw"
    and q: "\<forall>query \<in> set (Queries tsdbReq).
            \<exists>target. Unmarshal e (ModelJson query) = Inr target \<and>
              clientAvailable e w (Region target) \<and>
              (\<forall>svc. fetchSucceeds e svc (Input (withTimes fromRaw toRaw target)))"
    by blast
  have "\<exists>ts. map (\<lambda>query. Unmarshal e (ModelJson query)) queries = map Inr ts"
    if "\<forall>query \<in> set queries. \<exists>target. Unmarshal e (ModelJson query) = Inr target" for queries
    using that
  proof (induction queries)
    case Nil
    then show ?case by simp
  next
    case (Cons query queries)
    then obtain target ts where "Unmarshal e (ModelJson query) = Inr target"
      "map (\<lambda>query. Unmarshal e (ModelJson query)) queries = map Inr ts"
      by auto
    then show ?case by (intro exI [of _ "target # ts"]) simp
  qed
  with q obtain ts where ts: "map (\<lambda>query. Unmarshal e (ModelJson query)) (Queries tsdbReq) = map Inr ts"
    by blast
  then have d: "decodeTargets e fromRaw toRaw (Queries tsdbReq) [] = Inr (map (withTimes fromRaw toRaw) ts)"
    by (auto simp: decodeTargets_Inr)
  from ts have len: "length ts = length (Queries tsdbReq)"
    by (metis length_map)
  have "\<forall>target \<in> set (map (withTimes fromRaw toRaw) ts).
             Format target = ''table'' \<and> clientAvailable e w (Region target) \<and>
             (\<forall>svc. fetchSucceeds e svc (Input target))"
  proof
    fix target
    assume "target \<in> set (map (withTimes fromRaw toRaw) ts)"
    then obtain i where i: "i < length ts" "target = withTimes fromRaw toRaw (ts ! i)"
      by (auto simp: in_set_conv_nth)
    with len ts have u: "Unmarshal e (ModelJson (Queries tsdbReq ! i)) = Inr (ts ! i)"
      by (metis nth_map)
    from i len have m: "Queries tsdbReq ! i \<in> set (Queries tsdbReq)" by simp
    from q m u have "clientAvailable e w (Region (ts ! i))"
      "\<forall>svc. fetchSucceeds e svc (Input (withTimes fromRaw toRaw (ts ! i)))"
      by auto
    moreover from assms m u have "Format (ts ! i) = ''table''" by blast
    ultimately show "Format target = ''table'' \<and> clientAvailable e w (Region target) \<and>
             (\<forall>svc. fetchSucceeds e svc (Input target))"
      using i by simp
  qed
  from fetchTargets_succeeds [OF this, of "\<lparr>Results = []\<rparr>"] d tr
  show "\<exists>w1 response. handleQuery e w tsdbReq = (w1, Inr response)"
    by (simp add: handleQuery_eq)
qed

theorem handleQuery_table_results_witness:
  "\<exists>w1 response.
     handleQuery env0 world0 (request [modelA, modelB]) = (w1, Inr response) \<and>
     Query env0 world0 (request [modelA, modelB]) = (w1, Inr response) \<and>
     length (Results response) = 2 \<and>
     RefId_res (Results response ! 0) = ''A'' \<and>
     RefId_res (Results response ! 1) = ''B''"
proof -
  let ?req = "request [modelA, modelB]"
  have q: "Queries ?req = [\<lparr>ModelJson = modelA\<rparr>, \<lparr>ModelJson = modelB\<rparr>]"
    and tr: "TimeRange ?req = Some timeRange0"
    by (simp_all add: request_def)
  have a: "\<forall>query \<in> set (Queries ?req). \<forall>target.
             Unmarshal env0 (ModelJson query) = Inr target \<longrightarrow> Format target = ''table''"
    by (auto simp: q Unmarshal_env0)
  note T = handleQuery_table_results [OF a, of world0]
  have "\<forall>query \<in> set (Queries ?req).
            \<exists>target. Unmarshal env0 (ModelJson query) = Inr target \<and>
              clientAvailable env0 world0 (Region target) \<and>
              (\<forall>svc. fetchSucceeds env0 svc (Input (withTimes 1699999000000 1700000003000 target)))"
    by (simp add: q Unmarshal_env0 clientAvailable_env0 fetchSucceeds_env0 input0_def)
  with tr ParseInt_env0 T [THEN conjunct2]
  obtain w1 response where h: "handleQuery env0 world0 ?req = (w1, Inr response)"
    by blast
  have b: "bulkMode env0 ?req"
    by (simp add: bulkMode_def queryType_env0)
  note P = T [THEN conjunct1, rule_format, OF h]
  from P have len: "length (Results response) = 2" by (simp add: q)
  from P b have "Query env0 world0 ?req = (w1, Inr response)" by blast
  moreover note N = P [THEN conjunct2, THEN conjunct1, rule_format]
  from N [of 0] have "RefId_res (Results response ! 0) = ''A''"
    by (auto simp: q Unmarshal_env0)
  moreover from N [of 1] have "RefId_res (Results response ! 1) = ''B''"
    by (auto simp: q Unmarshal_env0)
  ultimately show ?thesis using h len by blast
qed

subsection \<open>Annotation mode\<close>

text \<open>
  C9. In annotation mode \<^verbatim>\<open>Query\<close> reads the first query only: the request cut down to
  its first query gets the same answer. It returns a response exactly when the first
  model decodes, the time range parses, a client is had for the target's region, the
  search for the target's filter, with start and end time replaced by the bounds of the
  request's time range, lists its pages without an error, and the records of all pages,
  in order, serialize; the response then holds one result, whose metadata field is that
  serialization and which has no table, no reference id and no error.
\<close>

theorem Query_annotation_result:
  assumes "queryMode e tsdbReq = Some ''annotationQuery''" and "Queries tsdbReq = query0 # rest"
  shows "Query e w tsdbReq = Query e w (tsdbReq\<lparr>Queries := [query0]\<rparr>) \<and>
    (\<forall>w1 response.
       Query e w tsdbReq = (w1, Inr response) \<longleftrightarrow>
         (\<exists>target0 timeRange fromRaw toRaw svc pages resultJson.
            Unmarshal e (ModelJson query0) = Inr target0 \<and> TimeRange tsdbReq = Some timeRange \<and>
            ParseInt e (FromRaw timeRange) = Inr fromRaw \<and> ParseInt e (ToRaw timeRange) = Inr toRaw \<and>
            GetClient e w (Region target0) = (w1, Inr svc) \<and>
            FilterLogEvents e svc ((Input target0)\<lparr>StartTime := Some fromRaw, EndTime := Some toRaw\<rparr>) = (pages, None) \<and>
            Marshal e \<lparr>Events = concat (map Events pages)\<rparr> = Inr resultJson \<and>
            response = \<lparr>Results = [\<lparr>Error = [], RefId_res = [], MetaJson = resultJson, Tables = []\<rparr>]\<rparr>))"
proof (intro conjI allI iffI)
  have m: "queryMode e (tsdbReq\<lparr>Queries := [query0]\<rparr>) = Some ''annotationQuery''"
    using assms by (simp add: queryMode_def)
  have "TimeRange (tsdbReq\<lparr>Queries := [query0]\<rparr>) = TimeRange tsdbReq" by simp
  then have "annotationQuery e w (tsdbReq\<lparr>Queries := [query0]\<rparr>) query0 = annotationQuery e w tsdbReq query0"
    by (cases "Unmarshal e (ModelJson query0)") (simp_all add: annotationQuery_def)
  with Query_annotation [OF assms, of w] Query_annotation [OF m, of query0 "[]" w]
  show "Query e w tsdbReq = Query e w (tsdbReq\<lparr>Queries := [query0]\<rparr>)" by simp
next
  fix w1 response
  assume "Query e w tsdbReq = (w1, Inr response)"
  with Query_annotation [OF assms, of w] have "annotationQuery e w tsdbReq query0 = (w1, Inr response)"
    by simp
  then show "\<exists>target0 timeRange fromRaw toRaw svc pages resultJson.
            Unmarshal e (ModelJson query0) = Inr target0 \<and> TimeRange tsdbReq = Some timeRange \<and>
            ParseInt e (FromRaw timeRange) = Inr fromRaw \<and> ParseInt e (ToRaw timeRange) = Inr toRaw \<and>
            GetClient e w (Region target0) = (w1, Inr svc) \<and>
            FilterLogEvents e svc ((Input target0)\<lparr>StartTime := Some fromRaw, EndTime := Some toRaw\<rparr>) = (pages, None) \<and>
            Marshal e \<lparr>Events = concat (map Events pages)\<rparr> = Inr resultJson \<and>
            response = \<lparr>Results = [\<lparr>Error = [], RefId_res = [], MetaJson = resultJson, Tables = []\<rparr>]\<rparr>"
    by (rule annotationQuery_InrD)
next
  fix w1 response
  assume "\<exists>target0 timeRange fromRaw toRaw svc pages resultJson.
            Unmarshal e (ModelJson query0) = Inr target0 \<and> TimeRange tsdbReq = Some timeRange \<and>
            ParseInt e (FromRaw timeRange) = Inr fromRaw \<and> ParseInt e (ToRaw timeRange) = Inr toRaw \<and>
            GetClient e w (Region target0) = (w1, Inr svc) \<and>
            FilterLogEvents e svc ((Input target0)\<lparr>StartTime := Some fromRaw, EndTime := Some toRaw\<rparr>) = (pages, None) \<and>
            Marshal e \<lparr>Events = concat (map Events pages)\<rparr> = Inr resultJson \<and>
            response = \<lparr>Results = [\<lparr>Error = [], RefId_res = [], MetaJson = resultJson, Tables = []\<rparr>]\<rparr>"
  then obtain target0 timeRange fromRaw toRaw svc pages resultJson where
    u: "Unmarshal e (ModelJson query0) = Inr target0" and tr: "TimeRange tsdbReq = Some timeRange" and
    f: "ParseInt e (FromRaw timeRange) = Inr fromRaw" and t: "ParseInt e (ToRaw timeRange) = Inr toRaw" and
    rest: "GetClient e w (Region target0) = (w1, Inr svc)"
      "FilterLogEvents e svc ((Input target0)\<lparr>StartTime := Some fromRaw, EndTime := Some toRaw\<rparr>) = (pages, None)"
      "Marshal e \<lparr>Events = concat (map Events pages)\<rparr> = Inr resultJson"
      "response = \<lparr>Results = [\<lparr>Error = [], RefId_res = [], MetaJson = resultJson, Tables = []\<rparr>]\<rparr>"
    by blast
  from rest show "Query e w tsdbReq = (w1, Inr response)"
    by (simp add: Query_annotation [OF assms] annotationQuery_decoded [OF u tr f t] QueryResult0_def)
qed

theorem Query_annotation_result_witness:
  "queryMode env0 (request [modelN, modelA]) = Some ''annotationQuery'' \<and>
   Query env0 world0 (request [modelN, modelA]) = Query env0 world0 (request [modelN]) \<and>
   Query env0 world0 (request [modelN, modelA]) =
     (world1, Inr \<lparr>Results = [\<lparr>Error = [], RefId_res = [], MetaJson = ''GET /;GET /health;POST /login;'', Tables = []\<rparr>]\<rparr>)"
proof -
  let ?req = "request [modelN, modelA]"
  have m: "queryMode env0 ?req = Some ''annotationQuery''" by (simp add: queryType_env0)
  have q: "Queries ?req = \<lparr>ModelJson = modelN\<rparr> # [\<lparr>ModelJson = modelA\<rparr>]" by (simp add: request_def)
  have tr: "TimeRange ?req = Some timeRange0" by (simp add: request_def)
  have c: "?req\<lparr>Queries := [\<lparr>ModelJson = modelN\<rparr>]\<rparr> = request [modelN]" by (simp add: request_def)
  note T = Query_annotation_result [OF m q, of world0]
  from T c have 1: "Query env0 world0 ?req = Query env0 world0 (request [modelN])" by simp
  have ma: "Marshal env0 \<lparr>Events = concat (map Events pages0)\<rparr> = Inr ''GET /;GET /health;POST /login;''"
    by (simp add: env0_def pages0_def event_def)
  have "Query env0 world0 ?req =
     (world1, Inr \<lparr>Results = [\<lparr>Error = [], RefId_res = [], MetaJson = ''GET /;GET /health;POST /login;'', Tables = []\<rparr>]\<rparr>)"
    apply (rule T [THEN conjunct2, rule_format, THEN iffD2])
    apply (intro exI conjI)
           apply (simp add: Unmarshal_env0)
          apply (rule tr)
         apply (rule ParseInt_env0(1))
        apply (rule ParseInt_env0(2))
       apply (simp add: GetClient_env0)
      apply (rule FilterLogEvents_env0(1))
      apply (simp add: input0_def)
     apply (rule ma)
    apply (rule refl)
    done
  with m 1 show ?thesis by simp
qed

subsection \<open>Errors inside a response, errors beside it\<close>

text \<open>
  C8. In bulk mode an error that \<^verbatim>\<open>handleQuery\<close> returns comes back from \<^verbatim>\<open>Query\<close> as a
  response with a nil error, holding one result whose error field is the error's text; so
  does, in the mode \<^verbatim>\<open>metricFindQuery\<close>, an error that \<^verbatim>\<open>metricFindQuery\<close> returns (that
  result carries the reference id \<^verbatim>\<open>metricFindQuery\<close> too). In annotation mode a failure
  to decode the first model, to parse either bound of the time range, to build the
  client, to fetch a page or to serialize the records comes back as that error itself,
  with no response. (An error of \<^verbatim>\<open>simplejson.NewJson\<close> on the first model, before any mode
  is known, comes back that way too.)
\<close>

theorem Query_error_paths:
  "(\<forall>w1 msg. bulkMode e tsdbReq \<and> handleQuery e w tsdbReq = (w1, Inl (Err msg)) \<longrightarrow>
      Query e w tsdbReq = (w1, Inr \<lparr>Results = [\<lparr>Error = msg, RefId_res = [], MetaJson = [], Tables = []\<rparr>]\<rparr>)) \<and>
   (\<forall>query0 rest modelJson w1 msg.
      Queries tsdbReq = query0 # rest \<and> NewJson e (ModelJson query0) = Inr modelJson \<and>
      MustString (Get modelJson ''queryType'') = ''metricFindQuery'' \<and>
      metricFindQuery e w modelJson = (w1, Inl (Err msg)) \<longrightarrow>
      Query e w tsdbReq =
        (w1, Inr \<lparr>Results = [\<lparr>Error = msg, RefId_res = ''metricFindQuery'', MetaJson = [], Tables = []\<rparr>]\<rparr>)) \<and>
   (\<forall>query0 rest. queryMode e tsdbReq = Some ''annotationQuery'' \<and> Queries tsdbReq = query0 # rest \<longrightarrow>
      (\<forall>msg. Unmarshal e (ModelJson query0) = Inl msg \<longrightarrow> Query e w tsdbReq = (w, Inl (Err msg))) \<and>
      (\<forall>target0 timeRange. Unmarshal e (ModelJson query0) = Inr target0 \<and> TimeRange tsdbReq = Some timeRange \<longrightarrow>
         (\<forall>msg. ParseInt e (FromRaw timeRange) = Inl msg \<longrightarrow> Query e w tsdbReq = (w, Inl (Err msg))) \<and>
         (\<forall>fromRaw. ParseInt e (FromRaw timeRange) = Inr fromRaw \<longrightarrow>
            (\<forall>msg. ParseInt e (ToRaw timeRange) = Inl msg \<longrightarrow> Query e w tsdbReq = (w, Inl (Err msg))) \<and>
            (\<forall>toRaw. ParseInt e (ToRaw timeRange) = Inr toRaw \<longrightarrow>
               (\<forall>w1 msg. GetClient e w (Region target0) = (w1, Inl (Err msg)) \<longrightarrow>
                  Query e w tsdbReq = (w1, Inl (Err msg))) \<and>
               (\<forall>w1 svc pages. GetClient e w (Region target0) = (w1, Inr svc) \<longrightarrow>
                  (\<forall>msg. FilterLogEvents e svc ((Input target0)\<lparr>StartTime := Some fromRaw, EndTime := Some toRaw\<rparr>) = (pages, Some msg) \<longrightarrow>
                     Query e w tsdbReq = (w1, Inl (Err msg))) \<and>
                  (\<forall>msg. FilterLogEvents e svc ((Input target0)\<lparr>StartTime := Some fromRaw, EndTime := Some toRaw\<rparr>) = (pages, None) \<and>
                     Marshal e \<lparr>Events = concat (map Events pages)\<rparr> = Inl msg \<longrightarrow>
                     Query e w tsdbReq = (w1, Inl (Err msg))))))))"
proof (intro conjI allI impI; (elim conjE)?)
  fix w1 msg
  assume "bulkMode e tsdbReq" "handleQuery e w tsdbReq = (w1, Inl (Err msg))"
  then show "Query e w tsdbReq = (w1, Inr \<lparr>Results = [\<lparr>Error = msg, RefId_res = [], MetaJson = [], Tables = []\<rparr>]\<rparr>)"
    by (simp add: Query_bulk QueryResult0_def)
next
  fix query0 rest modelJson w1 msg
  assume "Queries tsdbReq = query0 # rest" "NewJson e (ModelJson query0) = Inr modelJson"
    "MustString (Get modelJson ''queryType'') = ''metricFindQuery''"
    "metricFindQuery e w modelJson = (w1, Inl (Err msg))"
  then show "Query e w tsdbReq =
        (w1, Inr \<lparr>Results = [\<lparr>Error = msg, RefId_res = ''metricFindQuery'', MetaJson = [], Tables = []\<rparr>]\<rparr>)"
    by (simp add: Query_Cons QueryResult0_def)
next
  fix query0 rest msg
  assume "queryMode e tsdbReq = Some ''annotationQuery''" "Queries tsdbReq = query0 # rest"
    "Unmarshal e (ModelJson query0) = Inl msg"
  then show "Query e w tsdbReq = (w, Inl (Err msg))"
    by (simp add: Query_annotation annotationQuery_def)
next
  fix query0 rest target0 timeRange msg
  assume "queryMode e tsdbReq = Some ''annotationQuery''" "Queries tsdbReq = query0 # rest"
    "Unmarshal e (ModelJson query0) = Inr target0" "TimeRange tsdbReq = Some timeRange"
    "ParseInt e (FromRaw timeRange) = Inl msg"
  then show "Query e w tsdbReq = (w, Inl (Err msg))"
    by (simp add: Query_annotation annotationQuery_def)
next
  fix query0 rest target0 timeRange fromRaw msg
  assume "queryMode e tsdbReq = Some ''annotationQuery''" "Queries tsdbReq = query0 # rest"
    "Unmarshal e (ModelJson query0) = Inr target0" "TimeRange tsdbReq = Some timeRange"
    "ParseInt e (FromRaw timeRange) = Inr fromRaw" "ParseInt e (ToRaw timeRange) = Inl msg"
  then show "Query e w tsdbReq = (w, Inl (Err msg))"
    by (simp add: Query_annotation annotationQuery_def)
next
  fix query0 rest target0 timeRange fromRaw toRaw w1 msg
  assume "queryMode e tsdbReq = Some ''annotationQuery''" "Queries tsdbReq = query0 # rest"
    and d: "Unmarshal e (ModelJson query0) = Inr target0" "TimeRange tsdbReq = Some timeRange"
    "ParseInt e (FromRaw timeRange) = Inr fromRaw" "ParseInt e (ToRaw timeRange) = Inr toRaw"
    and "GetClient e w (Region target0) = (w1, Inl (Err msg))"
  then show "Query e w tsdbReq = (w1, Inl (Err msg))"
    by (simp add: Query_annotation annotationQuery_decoded [OF d])
next
  fix query0 rest target0 timeRange fromRaw toRaw w1 svc pages msg
  assume "queryMode e tsdbReq = Some ''annotationQuery''" "Queries tsdbReq = query0 # rest"
    and d: "Unmarshal e (ModelJson query0) = Inr target0" "TimeRange tsdbReq = Some timeRange"
    "ParseInt e (FromRaw timeRange) = Inr fromRaw" "ParseInt e (ToRaw timeRange) = Inr toRaw"
    and "GetClient e w (Region target0) = (w1, Inr svc)"
    "FilterLogEvents e svc ((Input target0)\<lparr>StartTime := Some fromRaw, EndTime := Some toRaw\<rparr>) = (pages, Some msg)"
  then show "Query e w tsdbReq = (w1, Inl (Err msg))"
    by (simp add: Query_annotation annotationQuery_decoded [OF d])
next
  fix query0 rest target0 timeRange fromRaw toRaw w1 svc pages msg
  assume "queryMode e tsdbReq = Some ''annotationQuery''" "Queries tsdbReq = query0 # rest"
    and d: "Unmarshal e (ModelJson query0) = Inr target0" "TimeRange tsdbReq = Some timeRange"
    "ParseInt e (FromRaw timeRange) = Inr fromRaw" "ParseInt e (ToRaw timeRange) = Inr toRaw"
    and "GetClient e w (Region target0) = (w1, Inr svc)"
    "FilterLogEvents e svc ((Input target0)\<lparr>StartTime := Some fromRaw, EndTime := Some toRaw\<rparr>) = (pages, None)"
    "Marshal e \<lparr>Events = concat (map Events pages)\<rparr> = Inl msg"
  then show "Query e w tsdbReq = (w1, Inl (Err msg))"
    by (simp add: Query_annotation annotationQuery_decoded [OF d])
qed

theorem Query_error_paths_witness:
  "bulkMode env0 (request [modelC]) \<and>
   handleQuery env0 world0 (request [modelC]) = (world1, Inl (Err ''ResourceNotFoundException'')) \<and>
   Query env0 world0 (request [modelC]) =
     (world1, Inr \<lparr>Results = [\<lparr>Error = ''ResourceNotFoundException'', RefId_res = [], MetaJson = [], Tables = []\<rparr>]\<rparr>) \<and>
   queryMode env_nosession (request [modelU]) = Some ''metricFindQuery'' \<and>
   Query env_nosession world0 (request [modelU]) =
     (world_failed, Inr \<lparr>Results = [\<lparr>Error = ''SharedConfigLoadError'', RefId_res = ''metricFindQuery'', MetaJson = [], Tables = []\<rparr>]\<rparr>) \<and>
   queryMode env_nosession (request [modelN]) = Some ''annotationQuery'' \<and>
   Query env_nosession world0 (request [modelN]) = (world_failed, Inl (Err ''SharedConfigLoadError''))"
proof -
  have b: "bulkMode env0 (request [modelC])"
    by (simp add: bulkMode_def queryType_env0)
  note h = handleQuery_env0_C
  note T1 = Query_error_paths [of env0 "request [modelC]" world0, THEN conjunct1, rule_format, OF conjI [OF b h]]
  from T1 have 1: "Query env0 world0 (request [modelC]) =
     (world1, Inr \<lparr>Results = [\<lparr>Error = ''ResourceNotFoundException'', RefId_res = [], MetaJson = [], Tables = []\<rparr>]\<rparr>)" .
  have mU: "queryMode env_nosession (request [modelU]) = Some ''metricFindQuery''"
    and mN: "queryMode env_nosession (request [modelN]) = Some ''annotationQuery''"
    by (simp_all add: queryMode_env_nosession queryType_env0)
  let ?doc = "JObject [(''queryType'', JString ''metricFindQuery''), (''subtype'', JString ''metric_names''),
                        (''region'', JString ''us-east-1'')]"
  have qU: "Queries (request [modelU]) = \<lparr>ModelJson = modelU\<rparr> # []"
    and qN: "Queries (request [modelN]) = \<lparr>ModelJson = modelN\<rparr> # []"
    and trN: "TimeRange (request [modelN]) = Some timeRange0"
    by (simp_all add: request_def)
  have jU: "NewJson env_nosession (ModelJson \<lparr>ModelJson = modelU\<rparr>) = Inr ?doc"
    by (simp add: env_nosession_fields NewJson_env0)
  have tU: "MustString (Get ?doc ''queryType'') = ''metricFindQuery''" by simp
  have fU: "metricFindQuery env_nosession world0 ?doc = (world_failed, Inl (Err ''SharedConfigLoadError''))"
    by (simp add: metricFindQuery_def GetClient_env_nosession)
  note T2 = Query_error_paths [of env_nosession "request [modelU]" world0, THEN conjunct2, THEN conjunct1, rule_format,
      OF conjI [OF qU conjI [OF jU conjI [OF tU fU]]]]
  from T2 have 2: "Query env_nosession world0 (request [modelU]) =
     (world_failed, Inr \<lparr>Results = [\<lparr>Error = ''SharedConfigLoadError'', RefId_res = ''metricFindQuery'', MetaJson = [], Tables = []\<rparr>]\<rparr>)" .
  have uN: "Unmarshal env_nosession (ModelJson \<lparr>ModelJson = modelN\<rparr>) =
      Inr \<lparr>RefId = [], QueryType = ''annotationQuery'', Format = [], Region = ''us-east-1'', Input = input0 ''/aws/app''\<rparr>"
    by (simp add: env_nosession_fields Unmarshal_env0)
  have pN: "ParseInt env_nosession (FromRaw timeRange0) = Inr 1699999000000"
    "ParseInt env_nosession (ToRaw timeRange0) = Inr 1700000003000"
    by (simp_all add: env_nosession_fields ParseInt_env0)
  have gN: "GetClient env_nosession world0
      (Region \<lparr>RefId = [], QueryType = ''annotationQuery'', Format = [], Region = ''us-east-1'', Input = input0 ''/aws/app''\<rparr>) =
      (world_failed, Inl (Err ''SharedConfigLoadError''))"
    by (simp add: GetClient_env_nosession)
  note T3 = Query_error_paths [of env_nosession "request [modelN]" world0, THEN conjunct2, THEN conjunct2, rule_format,
      OF conjI [OF mN qN]]
  note T3a = T3 [THEN conjunct2, rule_format, OF conjI [OF uN trN]]
  note T3b = T3a [THEN conjunct2, rule_format, OF pN(1)]
  note T3c = T3b [THEN conjunct2, rule_format, OF pN(2)]
  from T3c [THEN conjunct1, rule_format, OF gN]
  have 3: "Query env_nosession world0 (request [modelN]) = (world_failed, Inl (Err ''SharedConfigLoadError''))" .
  from b h 1 mU 2 mN 3 show ?thesis by simp
qed

subsection \<open>A target of format timeserie\<close>






subsection \<open>A subtype that is not known\<close>

text \<open>
  C5, as the code has it. Take a request in the mode \<^verbatim>\<open>metricFindQuery\<close> whose subtype is
  neither \<^verbatim>\<open>log_group_names\<close> nor \<^verbatim>\<open>log_stream_names\<close>. \<^verbatim>\<open>metricFindQuery\<close> asks for the
  client of the request's region before it looks at the subtype. When that client can be
  had, \<^verbatim>\<open>Query\<close> returns one result, without an error, whose table has the two columns
  \<^verbatim>\<open>text\<close> and \<^verbatim>\<open>value\<close> and no row. When it cannot, \<^verbatim>\<open>Query\<close> returns one result that
  carries the session's error and no table.
\<close>

theorem metricFindQuery_other_subtype:
  assumes "Queries tsdbReq = query0 # rest" and "NewJson e (ModelJson query0) = Inr modelJson"
    and "MustString (Get modelJson ''queryType'') = ''metricFindQuery''"
    and "MustString (Get modelJson ''subtype'') \<noteq> ''log_group_names''"
    and "MustString (Get modelJson ''subtype'') \<noteq> ''log_stream_names''"
  shows
    "(clientAvailable e w (MustString (Get modelJson ''region'')) \<longrightarrow>
        (\<exists>w1. Query e w tsdbReq =
           (w1, Inr \<lparr>Results = [\<lparr>Error = [], RefId_res = ''metricFindQuery'', MetaJson = [],
                                    Tables = [\<lparr>Columns = [\<lparr>Name = ''text''\<rparr>, \<lparr>Name = ''value''\<rparr>], Rows = []\<rparr>]\<rparr>]\<rparr>))) \<and>
     (\<not> clientAvailable e w (MustString (Get modelJson ''region'')) \<longrightarrow>
        (\<exists>w1 msg. NewSession e (MustString (Get modelJson ''region'')) = Inl msg \<and>
           Query e w tsdbReq =
             (w1, Inr \<lparr>Results = [\<lparr>Error = msg, RefId_res = ''metricFindQuery'', MetaJson = [], Tables = []\<rparr>]\<rparr>)))"
proof (intro conjI impI)
  let ?region = "MustString (Get modelJson ''region'')"
  assume "clientAvailable e w ?region"
  from GetClient_available [OF this] obtain w1 svc where g: "GetClient e w ?region = (w1, Inr svc)"
    by blast
  with assms(4,5) have "metricFindQuery e w modelJson =
      (w1, Inr \<lparr>Results = [QueryResult0\<lparr>RefId_res := ''metricFindQuery'', Tables := [transformToTable []]\<rparr>]\<rparr>)"
    by (simp add: metricFindQuery_def)
  with assms(3) have "Query e w tsdbReq =
           (w1, Inr \<lparr>Results = [\<lparr>Error = [], RefId_res = ''metricFindQuery'', MetaJson = [],
                                    Tables = [\<lparr>Columns = [\<lparr>Name = ''text''\<rparr>, \<lparr>Name = ''value''\<rparr>], Rows = []\<rparr>]\<rparr>]\<rparr>)"
    by (simp add: Query_Cons [OF assms(1,2)] QueryResult0_def transformToTable_Nil)
  then show "\<exists>w1. Query e w tsdbReq =
           (w1, Inr \<lparr>Results = [\<lparr>Error = [], RefId_res = ''metricFindQuery'', MetaJson = [],
                                    Tables = [\<lparr>Columns = [\<lparr>Name = ''text''\<rparr>, \<lparr>Name = ''value''\<rparr>], Rows = []\<rparr>]\<rparr>]\<rparr>)"
    by blast
next
  let ?region = "MustString (Get modelJson ''region'')"
  assume "\<not> clientAvailable e w ?region"
  then obtain msg where c: "clientCache w ?region = None" and n: "NewSession e ?region = Inl msg"
    by (auto simp: clientAvailable_def split: option.splits sum.splits)
  from GetClient_miss_Inl [OF c n]
  have "metricFindQuery e w modelJson = (w\<lparr>NewSession_calls := ?region # NewSession_calls w\<rparr>, Inl (Err msg))"
    by (simp add: metricFindQuery_def)
  with assms(3) have "Query e w tsdbReq =
      (w\<lparr>NewSession_calls := ?region # NewSession_calls w\<rparr>,
       Inr \<lparr>Results = [\<lparr>Error = msg, RefId_res = ''metricFindQuery'', MetaJson = [], Tables = []\<rparr>]\<rparr>)"
    by (simp add: Query_Cons [OF assms(1,2)] QueryResult0_def)
  with n show "\<exists>w1 msg. NewSession e ?region = Inl msg \<and>
           Query e w tsdbReq =
             (w1, Inr \<lparr>Results = [\<lparr>Error = msg, RefId_res = ''metricFindQuery'', MetaJson = [], Tables = []\<rparr>]\<rparr>)"
    by blast
qed


theorem metricFindQuery_other_subtype_witness:
  "queryMode env0 (request [modelU]) = Some ''metricFindQuery'' \<and>
   (\<exists>w1. Query env0 world0 (request [modelU]) =
      (w1, Inr \<lparr>Results = [\<lparr>Error = [], RefId_res = ''metricFindQuery'', MetaJson = [],
                               Tables = [\<lparr>Columns = [\<lparr>Name = ''text''\<rparr>, \<lparr>Name = ''value''\<rparr>], Rows = []\<rparr>]\<rparr>]\<rparr>))"
proof -
  let ?doc = "JObject [(''queryType'', JString ''metricFindQuery''), (''subtype'', JString ''metric_names''),
                        (''region'', JString ''us-east-1'')]"
  have q: "Queries (request [modelU]) = \<lparr>ModelJson = modelU\<rparr> # []" by (simp add: request_def)
  have j: "NewJson env0 (ModelJson \<lparr>ModelJson = modelU\<rparr>) = Inr ?doc" by (simp add: NewJson_env0)
  have t: "MustString (Get ?doc ''queryType'') = ''metricFindQuery''"
    "MustString (Get ?doc ''subtype'') \<noteq> ''log_group_names''"
    "MustString (Get ?doc ''subtype'') \<noteq> ''log_stream_names''"
    by simp_all
  note T = metricFindQuery_other_subtype [OF q j t, of world0, THEN conjunct1, rule_format, OF clientAvailable_env0]
  from T show ?thesis by (simp add: queryType_env0)
qed


text \<open>
  As the claim words it, every such request gets the empty table. On a machine where no
  session can be built the request below, of subtype \<^verbatim>\<open>metric_names\<close>, gets an error
  result without a table.
\<close>

theorem metricFindQuery_other_subtype_counterexample:
  "queryMode env_nosession (request [modelU]) = Some ''metricFindQuery'' \<and>
   NewJson env_nosession modelU =
     Inr (JObject [(''queryType'', JString ''metricFindQuery''), (''subtype'', JString ''metric_names''),
                   (''region'', JString ''us-east-1'')]) \<and>
   Query env_nosession world0 (request [modelU]) =
     (world_failed,
      Inr \<lparr>Results = [\<lparr>Error = ''SharedConfigLoadError'', RefId_res = ''metricFindQuery'', MetaJson = [], Tables = []\<rparr>]\<rparr>)"
proof -
  let ?doc = "JObject [(''queryType'', JString ''metricFindQuery''), (''subtype'', JString ''metric_names''),
                        (''region'', JString ''us-east-1'')]"
  have q: "Queries (request [modelU]) = \<lparr>ModelJson = modelU\<rparr> # []" by (simp add: request_def)
  have j: "NewJson env_nosession (ModelJson \<lparr>ModelJson = modelU\<rparr>) = Inr ?doc"
    by (simp add: env_nosession_fields NewJson_env0)
  have "metricFindQuery env_nosession world0 ?doc = (world_failed, Inl (Err ''SharedConfigLoadError''))"
    by (simp add: metricFindQuery_def GetClient_env_nosession)
  then have "Query env_nosession world0 (request [modelU]) =
     (world_failed,
      Inr \<lparr>Results = [\<lparr>Error = ''SharedConfigLoadError'', RefId_res = ''metricFindQuery'', MetaJson = [], Tables = []\<rparr>]\<rparr>)"
    by (simp add: Query_Cons [OF q j] QueryResult0_def)
  with j show ?thesis by (simp add: queryMode_env_nosession queryType_env0)
qed

subsection \<open>The order of the log group suggestions\<close>

text \<open>
  C4, as the code has it. Take a request for the log group names whose client is had and
  whose listing ends without an error, every group listed carrying a creation time and a
  name. The suggestions are the groups of all pages, each as often as the pages list it
  (none dropped, none merged), in an order in which no group is followed by one created
  later. The order among groups created at the same time is whatever \<^verbatim>\<open>sort.Slice\<close>
  leaves: the theorem holds for every sort that keeps the promise of its documentation.
\<close>

theorem log_group_names_order:
  assumes "Queries tsdbReq = query0 # rest" and "NewJson e (ModelJson query0) = Inr modelJson"
    and "MustString (Get modelJson ''queryType'') = ''metricFindQuery''"
    and "MustString (Get modelJson ''subtype'') = ''log_group_names''"
    and "GetClient e w (MustString (Get modelJson ''region'')) = (w1, Inr svc)"
    and "DescribeLogGroups e svc \<lparr>LogGroupNamePrefix = Some (MustString (Get modelJson ''prefix''))\<rparr> = (pages, None)"
    and "\<forall>g \<in> set (concat (map LogGroups pages)). CreationTime g \<noteq> None \<and> LogGroupName g \<noteq> None"
    and "Slice_sorts (Slice_groups e)"
  shows "\<exists>groups.
           mset groups = mset (concat (map LogGroups pages)) \<and>
           sorted_wrt (\<lambda>g h. sint (the (CreationTime h)) \<le> sint (the (CreationTime g))) groups \<and>
           Query e w tsdbReq =
             (w1, Inr \<lparr>Results = [\<lparr>Error = [], RefId_res = ''metricFindQuery'', MetaJson = [],
                 Tables = [\<lparr>Columns = [\<lparr>Name = ''text''\<rparr>, \<lparr>Name = ''value''\<rparr>],
                            Rows = map (\<lambda>g. \<lparr>Values = [stringValue (the (LogGroupName g)),
                                                      stringValue (the (LogGroupName g))]\<rparr>) groups\<rparr>]\<rparr>]\<rparr>)"
proof -
  let ?all = "concat (map LogGroups pages)"
  let ?groups = "Slice_groups e lessGroups ?all"
  from assms(7) have ct: "\<forall>g \<in> set ?all. CreationTime g \<noteq> None" and nm: "\<forall>g \<in> set ?all. LogGroupName g \<noteq> None"
    by blast+
  from assms(8) have m: "mset ?groups = mset ?all"
    and s: "strictWeak lessGroups (set ?all) \<longrightarrow> sorted_wrt (\<lambda>a b. \<not> lessGroups b a) ?groups"
    unfolding Slice_sorts_def by blast+
  from m have set: "set ?groups = set ?all" by (rule mset_eq_setD)
  from s strictWeak_lessGroups [OF ct] have "sorted_wrt (\<lambda>a b. \<not> lessGroups b a) ?groups" by blast
  with ct set have sorted: "sorted_wrt (\<lambda>g h. sint (the (CreationTime h)) \<le> sint (the (CreationTime g))) ?groups"
    by (intro sorted_lessGroups) simp_all
  from ct have nopanic: "\<not> list_ex (\<lambda>g. CreationTime g = None) ?all"
    by (simp add: list_ex_iff)
  from nm set have "groupSuggestions ?groups [] =
      Inr (map (\<lambda>g. \<lparr>Text = the (LogGroupName g), Value = the (LogGroupName g)\<rparr>) ?groups)"
    by (simp add: groupSuggestions_eq)
  with nopanic have "log_group_names e svc modelJson =
      Inr (map (\<lambda>g. \<lparr>Text = the (LogGroupName g), Value = the (LogGroupName g)\<rparr>) ?groups)"
    by (simp add: log_group_names_def DescribeLogGroupsPages_groupsPage [OF assms(6)])
  with assms(4,5) have "metricFindQuery e w modelJson =
      (w1, Inr \<lparr>Results = [QueryResult0\<lparr>RefId_res := ''metricFindQuery'',
          Tables := [transformToTable (map (\<lambda>g. \<lparr>Text = the (LogGroupName g), Value = the (LogGroupName g)\<rparr>) ?groups)]\<rparr>]\<rparr>)"
    by (simp add: metricFindQuery_def)
  with assms(3) have "Query e w tsdbReq =
             (w1, Inr \<lparr>Results = [\<lparr>Error = [], RefId_res = ''metricFindQuery'', MetaJson = [],
                 Tables = [\<lparr>Columns = [\<lparr>Name = ''text''\<rparr>, \<lparr>Name = ''value''\<rparr>],
                            Rows = map (\<lambda>g. \<lparr>Values = [stringValue (the (LogGroupName g)),
                                                      stringValue (the (LogGroupName g))]\<rparr>) ?groups\<rparr>]\<rparr>]\<rparr>)"
    by (simp add: Query_Cons [OF assms(1,2)] QueryResult0_def transformToTable_eq suggestRow_def comp_def)
  with m sorted show ?thesis by blast
qed


theorem log_group_names_order_witness:
  "Slice_sorts (Slice_groups env0) \<and>
   (\<exists>groups.
      mset groups = mset (concat (map LogGroups groupPages0)) \<and>
      sorted_wrt (\<lambda>g h. sint (the (CreationTime h)) \<le> sint (the (CreationTime g))) groups \<and>
      Query env0 world0 (request [modelG]) =
        (world1, Inr \<lparr>Results = [\<lparr>Error = [], RefId_res = ''metricFindQuery'', MetaJson = [],
           Tables = [\<lparr>Columns = [\<lparr>Name = ''text''\<rparr>, \<lparr>Name = ''value''\<rparr>],
                      Rows = map (\<lambda>g. \<lparr>Values = [stringValue (the (LogGroupName g)),
                                                stringValue (the (LogGroupName g))]\<rparr>) groups\<rparr>]\<rparr>]\<rparr>))"
proof -
  let ?doc = "JObject [(''queryType'', JString ''metricFindQuery''), (''subtype'', JString ''log_group_names''),
                        (''region'', JString ''us-east-1''), (''prefix'', JString ''/aws'')]"
  have q: "Queries (request [modelG]) = \<lparr>ModelJson = modelG\<rparr> # []" by (simp add: request_def)
  have j: "NewJson env0 (ModelJson \<lparr>ModelJson = modelG\<rparr>) = Inr ?doc" by (simp add: NewJson_env0)
  have t: "MustString (Get ?doc ''queryType'') = ''metricFindQuery''"
    "MustString (Get ?doc ''subtype'') = ''log_group_names''"
    by simp_all
  have g: "GetClient env0 world0 (MustString (Get ?doc ''region'')) = (world1, Inr client0)"
    by (simp add: GetClient_env0)
  have d: "DescribeLogGroups env0 client0 \<lparr>LogGroupNamePrefix = Some (MustString (Get ?doc ''prefix''))\<rparr> = (groupPages0, None)"
    by (simp add: env0_def)
  have c: "\<forall>g \<in> set (concat (map LogGroups groupPages0)). CreationTime g \<noteq> None \<and> LogGroupName g \<noteq> None"
    by (simp add: groupPages0_def logGroup_def)
  have s: "Slice_sorts (Slice_groups env0)"
    by (simp add: env0_def Slice_sorts_Slice_short)
  from log_group_names_order [OF q j t g d c s] s show ?thesis by simp
qed

text \<open>
  As the claim words it, groups of equal creation time keep the order of the listing.
  \<^verbatim>\<open>sort.Slice\<close> is not a stable sort. Run as the Go releases up to 1.18 run it, on a
  listing of seven groups of which the last was created latest and the six before it at
  one time, its first pass swaps the last group with the first: the group listed first
  comes out last, behind the five listed after it.
\<close>

theorem log_group_names_order_counterexample:
  "Query env0 world0 (request [modelG]) =
     (world1, Inr \<lparr>Results = [\<lparr>Error = [], RefId_res = ''metricFindQuery'', MetaJson = [],
        Tables = [\<lparr>Columns = [\<lparr>Name = ''text''\<rparr>, \<lparr>Name = ''value''\<rparr>],
                   Rows = map (\<lambda>name. \<lparr>Values = [stringValue name, stringValue name]\<rparr>)
                     [''/aws/g'', ''/aws/b'', ''/aws/c'', ''/aws/d'', ''/aws/e'', ''/aws/f'', ''/aws/a'']\<rparr>]\<rparr>]\<rparr>) \<and>
   DescribeLogGroups env0 client0 \<lparr>LogGroupNamePrefix = Some ''/aws''\<rparr> = (groupPages0, None) \<and>
   map (\<lambda>g. (the (LogGroupName g), the (CreationTime g))) (concat (map LogGroups groupPages0)) =
     [(''/aws/a'', 1000), (''/aws/b'', 1000), (''/aws/c'', 1000), (''/aws/d'', 1000),
      (''/aws/e'', 1000), (''/aws/f'', 1000), (''/aws/g'', 2000)] \<and>
   map (\<lambda>g. the (LogGroupName g)) (stableByCreation (concat (map LogGroups groupPages0))) =
     [''/aws/g'', ''/aws/a'', ''/aws/b'', ''/aws/c'', ''/aws/d'', ''/aws/e'', ''/aws/f''] \<and>
   snd (Query env0 world0 (request [modelG])) \<noteq>
     Inr \<lparr>Results = [\<lparr>Error = [], RefId_res = ''metricFindQuery'', MetaJson = [],
        Tables = [\<lparr>Columns = [\<lparr>Name = ''text''\<rparr>, \<lparr>Name = ''value''\<rparr>],
                   Rows = map (\<lambda>name. \<lparr>Values = [stringValue name, stringValue name]\<rparr>)
                     (map (\<lambda>g. the (LogGroupName g))
                        (stableByCreation (concat (map LogGroups groupPages0))))\<rparr>]\<rparr>]\<rparr>"
proof -
  have "map (\<lambda>g. the (LogGroupName g)) (stableByCreation (concat (map LogGroups groupPages0))) =
     [''/aws/g'', ''/aws/a'', ''/aws/b'', ''/aws/c'', ''/aws/d'', ''/aws/e'', ''/aws/f'']"
    by code_simp
  moreover have "DescribeLogGroups env0 client0 \<lparr>LogGroupNamePrefix = Some ''/aws''\<rparr> = (groupPages0, None)"
    by (simp add: env0_def)
  moreover have "map (\<lambda>g. (the (LogGroupName g), the (CreationTime g))) (concat (map LogGroups groupPages0)) =
     [(''/aws/a'', 1000), (''/aws/b'', 1000), (''/aws/c'', 1000), (''/aws/d'', 1000),
      (''/aws/e'', 1000), (''/aws/f'', 1000), (''/aws/g'', 2000)]"
    by (simp add: groupPages0_def logGroup_def)
  ultimately show ?thesis using Query_env0_G by (simp add: stringValue_def)
qed


subsection \<open>The two time cells\<close>

text \<open>
  C7, as the code has it. A time cell is the RFC 3339 form, in the local zone and to the
  second, of the instant whose seconds are the milliseconds divided by 1000, rounded
  down, and whose nanoseconds are the remainder times a million: the truncating division
  of the code and the carry in \<^verbatim>\<open>time.Unix\<close> come to that. Where the zone's offset at that
  instant is zero, 1700000000123 gives \<^verbatim>\<open>2023-11-14T22:13:20Z\<close>: the layout writes a zero
  offset as \<^verbatim>\<open>Z\<close>. The form is a function of the value and the zone. The nanoseconds
  are not printed, so two values within one second give the same text; the timestamp is
  the first value of the row and the ingestion time the second.
\<close>

theorem formatMillis_cells:
  "formatMillis e ms =
     Format_RFC3339 (Local e) (word_of_int (sint ms div 1000), word_of_int (sint ms mod 1000 * 1000000)) \<and>
   (Local e 1700000000 = 0 \<longrightarrow> formatMillis e 1700000000123 = ''2023-11-14T22:13:20Z'') \<and>
   (\<forall>ms'. sint ms div 1000 = sint ms' div 1000 \<longrightarrow> formatMillis e ms = formatMillis e ms') \<and>
   (\<forall>row. eventRow e ev = Inr row \<longrightarrow>
      (\<exists>ts it stream msg.
         Timestamp ev = Some ts \<and> IngestionTime ev = Some it \<and>
         LogStreamName ev = Some stream \<and> Message ev = Some msg \<and>
         Values row = [stringValue (formatMillis e ts), stringValue (formatMillis e it),
                       stringValue stream, stringValue msg]))"
proof (intro conjI allI impI)
  show "formatMillis e ms =
     Format_RFC3339 (Local e) (word_of_int (sint ms div 1000), word_of_int (sint ms mod 1000 * 1000000))"
    by (rule formatMillis_floor)
next
  assume "Local e 1700000000 = 0"
  then show "formatMillis e 1700000000123 = ''2023-11-14T22:13:20Z''"
    by (rule formatMillis_1700000000123)
next
  fix ms' :: int64
  assume "sint ms div 1000 = sint ms' div 1000"
  then show "formatMillis e ms = formatMillis e ms'" by (rule formatMillis_same_second)
next
  fix row
  assume "eventRow e ev = Inr row"
  then show "\<exists>ts it stream msg.
         Timestamp ev = Some ts \<and> IngestionTime ev = Some it \<and>
         LogStreamName ev = Some stream \<and> Message ev = Some msg \<and>
         Values row = [stringValue (formatMillis e ts), stringValue (formatMillis e it),
                       stringValue stream, stringValue msg]"
    by (auto simp: eventRow_def split: option.splits)
qed


theorem formatMillis_cells_witness:
  "Local env0 1700000000 = 0 \<and>
   formatMillis env0 1700000000123 = ''2023-11-14T22:13:20Z'' \<and>
   sint (1700000000123 :: int64) div 1000 = sint (1700000000456 :: int64) div 1000 \<and>
   formatMillis env0 1700000000123 = formatMillis env0 1700000000456 \<and>
   formatMillis env0 (- 1) = Format_RFC3339 (Local env0) (- 1, 999000000) \<and>
   (\<exists>row. eventRow env0 (event 1700000000123 1700000002000 ''web-1'' ''GET /'') = Inr row \<and>
      Values row = [stringValue (formatMillis env0 1700000000123), stringValue (formatMillis env0 1700000002000),
                    stringValue ''web-1'', stringValue ''GET /''])"
proof -
  have l: "Local env0 1700000000 = 0" by (simp add: env0_def)
  have d: "sint (1700000000123 :: int64) div 1000 = sint (1700000000456 :: int64) div 1000" by simp
  let ?ev = "event 1700000000123 1700000002000 ''web-1'' ''GET /''"
  obtain row where row: "eventRow env0 ?ev = Inr row"
    by (simp add: eventRow_def event_def)
  note T = formatMillis_cells [of env0 "1700000000123" ?ev]
  note T1 = formatMillis_cells [of env0 "- 1" ?ev, THEN conjunct1]
  from T l have 1: "formatMillis env0 1700000000123 = ''2023-11-14T22:13:20Z''" by (elim conjE impE)
  from T [THEN conjunct2, THEN conjunct2, THEN conjunct1, rule_format, OF d]
  have 2: "formatMillis env0 1700000000123 = formatMillis env0 1700000000456" .
  from T [THEN conjunct2, THEN conjunct2, THEN conjunct2, rule_format, OF row]
  have 3: "Values row = [stringValue (formatMillis env0 1700000000123), stringValue (formatMillis env0 1700000002000),
                    stringValue ''web-1'', stringValue ''GET /'']"
    by (auto simp: event_def)
  from T1 have 4: "formatMillis env0 (- 1) = Format_RFC3339 (Local env0) (- 1, 999000000)"
    by simp
  from l 1 d 2 3 4 row show ?thesis by blast
qed


text \<open>
  As the claim words it, 1700000000123 gives \<^verbatim>\<open>2023-11-14T22:13:20+00:00\<close>, and the two
  cells of a record with different values can be told apart. In UTC the text ends in
  \<^verbatim>\<open>Z\<close>, and a record stamped 1700000000123 and ingested 1700000000456 has twice the same
  text.
\<close>

theorem formatMillis_cells_counterexample:
  "Local env0 1700000000 = 0 \<and>
   formatMillis env0 1700000000123 = ''2023-11-14T22:13:20Z'' \<and>
   formatMillis env0 1700000000123 \<noteq> ''2023-11-14T22:13:20+00:00'' \<and>
   (1700000000123 :: int64) \<noteq> 1700000000456 \<and>
   eventRow env0 (event 1700000000123 1700000000456 ''web-1'' ''GET /'') =
     Inr \<lparr>Values = [stringValue ''2023-11-14T22:13:20Z'', stringValue ''2023-11-14T22:13:20Z'',
                     stringValue ''web-1'', stringValue ''GET /'']\<rparr>"
proof -
  have l: "Local env0 1700000000 = 0" by (simp add: env0_def)
  have 1: "formatMillis env0 1700000000123 = ''2023-11-14T22:13:20Z''"
    using l by (rule formatMillis_1700000000123)
  have 2: "formatMillis env0 1700000000456 = ''2023-11-14T22:13:20Z''"
    using formatMillis_same_second [of "1700000000456" "1700000000123" env0] 1 by simp
  have 3: "eventRow env0 (event 1700000000123 1700000000456 ''web-1'' ''GET /'') =
     Inr \<lparr>Values = [stringValue ''2023-11-14T22:13:20Z'', stringValue ''2023-11-14T22:13:20Z'',
                     stringValue ''web-1'', stringValue ''GET /'']\<rparr>"
    by (simp add: eventRow_def event_def 1 2)
  from l 1 3 show ?thesis by simp
qed

end
